theory Spec2Isabelle
  imports
    Complex_Main
    "HOL-Library.AList"
    "HOL-Library.Multiset"
    "HOL-Library.Char_ord"
    "HOL-Library.List_Lexorder"
begin

section \<open>Python values, exceptions and log records\<close>

text \<open>
  A Python \<open>float\<close> is denoted by the rational it was converted from; rounding to the
  nearest binary64 value is not modelled, overflow is. A \<open>datetime\<close> is an instant, in
  seconds since the epoch.
\<close>

datatype pyfloat = Finite rat | PosInf | NegInf | NaN_float

datatype datetime = Datetime int

text \<open>
  JSON values as Python objects. A \<open>str\<close> is the list of its code points, of which those
  below 256 are represented. A \<open>dict\<close> is an association list in insertion order, read
  with \<^const>\<open>map_of\<close> and written with \<^const>\<open>AList.update\<close>.
\<close>

datatype pyval =
    PNone
  | PBool bool
  | PInt int
  | PFloat pyfloat
  | PStr string
  | PDatetime datetime
  | PList "pyval list"
  | PDict "(string \<times> pyval) list"

type_synonym document = "(string \<times> pyval) list"

text \<open>
  Exceptions derived from \<open>Exception\<close>: the class, the text of \<open>str(e)\<close> and the
  \<open>details\<close> attribute (absent, \<open>None\<close> or a dict of counters, as pymongo's write errors
  carry it).
\<close>

datatype exc_class =
    KeyError | TypeError | ValueError | OverflowError | AttributeError
  | ValidationError | BulkWriteError | OperationFailure | PlainException

datatype details_attr = NoDetails | DetailsNone | Details "(string \<times> int) list"

datatype py_exception = PyExc (exc_class: exc_class) (exc_str: string) (exc_details: details_attr)

datatype level = DEBUG | INFO | WARNING | ERROR | SUCCESS

datatype log_arg = AInt int | AStr string | AVal pyval

text \<open>A log record: the level, the f-string of the call and the values interpolated.\<close>

datatype log_entry = Log level string "log_arg list"

definition quote :: "string \<Rightarrow> string" where
  "quote s = CHR 0x27 # s @ [CHR 0x27]"

text \<open>
  \<open>repr(s)\<close> of a string: in single quotes, or in double quotes when the string holds a
  single quote and no double quote; the quote used and the backslash are escaped, tab, line
  feed and carriage return are written \<open>\t\<close>, \<open>\n\<close> and \<open>\r\<close>, and any other character that
  is not printable as \<open>\xhh\<close>.
\<close>

definition hex_digit :: "nat \<Rightarrow> char" where
  "hex_digit n = ''0123456789abcdef'' ! n"

definition printable :: "char \<Rightarrow> bool" where
  "printable c =
     (32 \<le> (of_char c :: nat) \<and> (of_char c :: nat) < 127
      \<or> 161 \<le> (of_char c :: nat) \<and> (of_char c :: nat) \<noteq> 173)"

definition repr_char :: "char \<Rightarrow> char \<Rightarrow> string" where
  "repr_char q c =
     (if c = q \<or> c = CHR 0x5C then [CHR 0x5C, c]
      else if c = CHR 0x09 then [CHR 0x5C, CHR ''t'']
      else if c = CHR 0x0A then [CHR 0x5C, CHR ''n'']
      else if c = CHR 0x0D then [CHR 0x5C, CHR ''r'']
      else if printable c then [c]
      else [CHR 0x5C, CHR ''x'', hex_digit (of_char c div 16), hex_digit (of_char c mod 16)])"

definition py_repr :: "string \<Rightarrow> string" where
  "py_repr s =
     (let q = (if CHR 0x27 \<in> set s \<and> CHR 0x22 \<notin> set s then CHR 0x22 else CHR 0x27)
      in q # concat (map (repr_char q) s) @ [q])"

text \<open>\<open>str(KeyError(k))\<close> is \<open>repr(k)\<close>.\<close>

definition key_error :: "string \<Rightarrow> py_exception" where
  "key_error k = PyExc KeyError (py_repr k) NoDetails"

definition none_not_subscriptable :: py_exception where
  "none_not_subscriptable =
     PyExc TypeError (quote ''NoneType'' @ '' object is not subscriptable'') NoDetails"

definition none_has_no_get :: py_exception where
  "none_has_no_get =
     PyExc AttributeError
       (quote ''NoneType'' @ '' object has no attribute '' @ quote ''get'') NoDetails"

text \<open>\<open>needle in haystack\<close> on strings.\<close>

fun str_contains :: "string \<Rightarrow> string \<Rightarrow> bool" where
  "str_contains needle [] = (needle = [])"
| "str_contains needle (c # cs) =
     (take (length needle) (c # cs) = needle \<or> str_contains needle cs)"

section \<open>The batch writer (database.py)\<close>

text \<open>
  The storage collaborator. \<open>insert_many\<close> stands for
  \<open>collection.insert_many(documents, ordered=False)\<close> and \<open>bulk_write\<close> for
  \<open>collection.bulk_write(operations, ordered=False)\<close>; either returns its result object or
  raises, and leaves the storage in a new state in both cases.
\<close>

datatype update_one = UpdateOne (filter_query: document) (set_doc: document) (upsert: bool)

record insert_many_result =
  inserted_ids :: "pyval list"

record bulk_write_result =
  upserted_count :: int
  modified_count :: int

record 'st storage =
  insert_many :: "string \<Rightarrow> document list \<Rightarrow> 'st \<Rightarrow> (py_exception + insert_many_result) \<times> 'st"
  bulk_write :: "string \<Rightarrow> update_one list \<Rightarrow> 'st \<Rightarrow> (py_exception + bulk_write_result) \<times> 'st"

text \<open>What a run can observe: the state of the storage and the log written so far.\<close>

record 'st world =
  db_state :: 'st
  logs :: "log_entry list"

definition emit :: "log_entry list \<Rightarrow> 'st world \<Rightarrow> 'st world" where
  "emit es w = w\<lparr>logs := logs w @ es\<rparr>"

text \<open>Truth value of \<open>upsert_key\<close>: \<open>None\<close> and the empty string are false.\<close>

definition key_given :: "string option \<Rightarrow> bool" where
  "key_given upsert_key = (case upsert_key of None \<Rightarrow> False | Some k \<Rightarrow> k \<noteq> [])"

text \<open>Lines 111-116: one \<open>UpdateOne\<close> per document; \<open>doc[upsert_key]\<close> raises \<open>KeyError\<close>.\<close>

fun build_operations :: "string \<Rightarrow> document list \<Rightarrow> update_one list \<Rightarrow> py_exception + update_one list" where
  "build_operations k [] operations = Inr operations"
| "build_operations k (doc # docs) operations =
     (case map_of doc k of
        None \<Rightarrow> Inl (key_error k)
      | Some v \<Rightarrow> build_operations k docs (operations @ [UpdateOne [(k, v)] doc True]))"

text \<open>Lines 125-137: the handler of the inner \<open>try\<close> around \<open>insert_many\<close>.\<close>

definition on_bulk_error ::
  "string \<Rightarrow> document list \<Rightarrow> py_exception \<Rightarrow> 'st world \<Rightarrow> (py_exception + int) \<times> 'st world" where
  "on_bulk_error collection_name documents bulk_error w =
     (if str_contains ''duplicate key error'' (exc_str bulk_error) then
        (case exc_details bulk_error of
           DetailsNone \<Rightarrow> (Inl none_has_no_get, w)
         | error_details \<Rightarrow>
             (let inserted_count =
                    (case error_details of
                       Details m \<Rightarrow> (case map_of m ''nInserted'' of Some n \<Rightarrow> n | None \<Rightarrow> 0)
                     | _ \<Rightarrow> 0);
                  duplicates = int (length documents) - inserted_count
              in (Inr inserted_count,
                  if duplicates > 0
                  then emit [Log DEBUG ''Skipped {duplicates} duplicates in {collection_name}''
                               [AInt duplicates, AStr collection_name]] w
                  else w)))
      else (Inl bulk_error, w))"

text \<open>Lines 108-142: the body of the outer \<open>try\<close>. \<open>self.db\<close> is \<open>None\<close> until connected.\<close>

definition bulk_insert_try ::
  "'st storage option \<Rightarrow> string \<Rightarrow> document list \<Rightarrow> string option \<Rightarrow> 'st world
     \<Rightarrow> (py_exception + int) \<times> 'st world" where
  "bulk_insert_try db collection_name documents upsert_key w =
     (case db of
        None \<Rightarrow> (Inl none_not_subscriptable, w)
      | Some collection \<Rightarrow>
          (let (r, w') =
             (if key_given upsert_key then
                (case build_operations (case upsert_key of Some k \<Rightarrow> k | None \<Rightarrow> [])
                        documents [] of
                   Inl e \<Rightarrow> (Inl e, w)
                 | Inr operations \<Rightarrow>
                     (case bulk_write collection collection_name operations (db_state w) of
                        (Inl e, st') \<Rightarrow> (Inl e, w\<lparr>db_state := st'\<rparr>)
                      | (Inr result, st') \<Rightarrow>
                          (Inr (upserted_count result + modified_count result),
                           w\<lparr>db_state := st'\<rparr>)))
              else
                (case insert_many collection collection_name documents (db_state w) of
                   (Inr result, st') \<Rightarrow>
                     (Inr (int (length (inserted_ids result))), w\<lparr>db_state := st'\<rparr>)
                 | (Inl bulk_error, st') \<Rightarrow>
                     on_bulk_error collection_name documents bulk_error (w\<lparr>db_state := st'\<rparr>)))
           in (case r of
                 Inl e \<Rightarrow> (Inl e, w')
               | Inr inserted_count \<Rightarrow>
                   (Inr inserted_count,
                    emit [Log INFO ''Inserted/Updated {inserted_count} documents in {collection_name}''
                            [AInt inserted_count, AStr collection_name]] w'))))"

text \<open>Lines 146-148: the summary of the error text.\<close>

definition summarize :: "string \<Rightarrow> string" where
  "summarize error_msg =
     (if length error_msg > 200 then take 200 error_msg @ ''... (truncated)'' else error_msg)"

text \<open>
  Lines 97-150. The result is \<open>Inr\<close> the count returned, or \<open>Inl\<close> an exception that leaves
  the call.
\<close>

definition bulk_insert ::
  "'st storage option \<Rightarrow> string \<Rightarrow> document list \<Rightarrow> string option \<Rightarrow> 'st world
     \<Rightarrow> (py_exception + int) \<times> 'st world" where
  "bulk_insert db collection_name documents upsert_key w =
     (if documents = [] then (Inr 0, w)
      else
        (case bulk_insert_try db collection_name documents upsert_key w of
           (Inr inserted_count, w') \<Rightarrow> (Inr inserted_count, w')
         | (Inl e, w') \<Rightarrow>
             (Inr 0,
              emit [Log ERROR ''Error bulk inserting to {collection_name}: {error_msg}''
                      [AStr collection_name, AStr (summarize (exc_str e))]] w')))"

section \<open>A reference storage\<close>

text \<open>
  Modelled from the spec: the storage capability of section 6, as MongoDB provides it. A
  collection is a list of documents with a unique index on the field \<open>ukey\<close>. On \<open>_id\<close>,
  the field every collection is indexed on, a document sent without the field is given a
  fresh \<open>ObjectId\<close> by the driver, which no other document has: it carries no key that
  could be stored already. The id assigned is left implicit: the document is stored as it was
  sent, and \<open>inserted_ids\<close> shows \<open>None\<close> for it. The driver also writes the id into the
  document of the caller; documents are values here, so a list that is sent a second time is
  sent as it was the first time. On any other field a document without the field is indexed
  under null, like every other document without it.

  An unordered bulk insert attempts every document in turn, stores those that carry no key
  or a key that no stored document has, and raises one \<open>BulkWriteError\<close> that names the
  duplicate-key failures and counts the documents inserted. An upsert updates the first
  document matching the filter with the fields of \<open>$set\<close>, or inserts the filter's fields
  with them when there is none; \<open>modified_count\<close> counts the documents an update changed.
\<close>

type_synonym store = "string \<Rightarrow> document list"

definition carries_key :: "string \<Rightarrow> document \<Rightarrow> bool" where
  "carries_key ukey d = (if ukey = ''_id'' then map_of d ukey \<noteq> None else True)"

definition stored_key :: "string \<Rightarrow> document list \<Rightarrow> document \<Rightarrow> bool" where
  "stored_key ukey stored d = (\<exists>x \<in> set stored. map_of x ukey = map_of d ukey)"

text \<open>A document that the unique index refuses: it carries a key that a stored document has.\<close>

definition is_duplicate :: "string \<Rightarrow> document list \<Rightarrow> document \<Rightarrow> bool" where
  "is_duplicate ukey stored d = (carries_key ukey d \<and> stored_key ukey stored d)"

fun insert_each :: "string \<Rightarrow> document list \<Rightarrow> document list \<Rightarrow> document list \<Rightarrow> document list \<times> document list" where
  "insert_each ukey [] stored inserted = (stored, inserted)"
| "insert_each ukey (d # ds) stored inserted =
     (if is_duplicate ukey stored d then insert_each ukey ds stored inserted
      else insert_each ukey ds (stored @ [d]) (inserted @ [d]))"

definition id_of :: "string \<Rightarrow> document \<Rightarrow> pyval" where
  "id_of ukey d = (case map_of d ukey of Some v \<Rightarrow> v | None \<Rightarrow> PNone)"

definition duplicate_key_error :: "string \<Rightarrow> nat \<Rightarrow> py_exception" where
  "duplicate_key_error collection_name n =
     PyExc BulkWriteError
       (''batch op errors occurred, full error: E11000 duplicate key error collection: ''
          @ collection_name)
       (Details [(''nInserted'', int n)])"

definition ref_insert_many ::
  "string \<Rightarrow> string \<Rightarrow> document list \<Rightarrow> store \<Rightarrow> (py_exception + insert_many_result) \<times> store" where
  "ref_insert_many ukey collection_name documents st =
     (let (stored, inserted) = insert_each ukey documents (st collection_name) []
      in (if length inserted = length documents
          then Inr \<lparr>inserted_ids = map (id_of ukey) inserted\<rparr>
          else Inl (duplicate_key_error collection_name (length inserted)),
          st(collection_name := stored)))"

definition matches :: "document \<Rightarrow> document \<Rightarrow> bool" where
  "matches flt d = list_all (\<lambda>(k, v). map_of d k = Some v) flt"

definition apply_set :: "document \<Rightarrow> document \<Rightarrow> document" where
  "apply_set changes d = fold (\<lambda>(k, v). AList.update k v) changes d"

fun update_first :: "document \<Rightarrow> document \<Rightarrow> document list \<Rightarrow> (document list \<times> bool) option" where
  "update_first flt changes [] = None"
| "update_first flt changes (d # ds) =
     (if matches flt d then Some (apply_set changes d # ds, apply_set changes d \<noteq> d)
      else (case update_first flt changes ds of
              None \<Rightarrow> None
            | Some (ds', changed) \<Rightarrow> Some (d # ds', changed)))"

fun write_each :: "update_one list \<Rightarrow> document list \<Rightarrow> bulk_write_result \<Rightarrow> document list \<times> bulk_write_result" where
  "write_each [] stored res = (stored, res)"
| "write_each (UpdateOne flt changes ups # ops) stored res =
     (case update_first flt changes stored of
        Some (stored', changed) \<Rightarrow>
          write_each ops stored'
            (if changed then res\<lparr>modified_count := modified_count res + 1\<rparr> else res)
      | None \<Rightarrow>
          (if ups
           then write_each ops (stored @ [apply_set changes flt])
                  (res\<lparr>upserted_count := upserted_count res + 1\<rparr>)
           else write_each ops stored res))"

definition ref_bulk_write ::
  "string \<Rightarrow> update_one list \<Rightarrow> store \<Rightarrow> (py_exception + bulk_write_result) \<times> store" where
  "ref_bulk_write collection_name operations st =
     (let (stored, res) =
            write_each operations (st collection_name) \<lparr>upserted_count = 0, modified_count = 0\<rparr>
      in (Inr res, st(collection_name := stored)))"

definition ref_storage :: "string \<Rightarrow> store storage" where
  "ref_storage ukey = \<lparr>insert_many = ref_insert_many ukey, bulk_write = ref_bulk_write\<rparr>"

text \<open>
  The duplicates of a batch: the records that carry a key which a document stored before the
  call has, or an earlier record of the batch. \<open>present\<close> holds the documents stored before
  the call, followed by the records of the batch gone by. The other records of the batch are
  the newly written ones.
\<close>

fun duplicates :: "string \<Rightarrow> document list \<Rightarrow> document list \<Rightarrow> document list" where
  "duplicates ukey present [] = []"
| "duplicates ukey present (d # ds) =
     (if is_duplicate ukey present d then d # duplicates ukey (present @ [d]) ds
      else duplicates ukey (present @ [d]) ds)"

fun newly_written :: "string \<Rightarrow> document list \<Rightarrow> document list \<Rightarrow> document list" where
  "newly_written ukey present [] = []"
| "newly_written ukey present (d # ds) =
     (if is_duplicate ukey present d then newly_written ukey (present @ [d]) ds
      else d # newly_written ukey (present @ [d]) ds)"

definition documents_with :: "string \<Rightarrow> pyval \<Rightarrow> document list \<Rightarrow> document list" where
  "documents_with k v ds = filter (\<lambda>d. map_of d k = Some v) ds"

text \<open>A storage that is unreachable: every request raises.\<close>

definition unreachable :: py_exception where
  "unreachable = PyExc OperationFailure ''localhost:27017: connection refused'' NoDetails"

definition down_storage :: "unit storage" where
  "down_storage =
     \<lparr>insert_many = (\<lambda>c ds st. (Inl unreachable, st)),
      bulk_write = (\<lambda>c ops st. (Inl unreachable, st))\<rparr>"

section \<open>The record schema (models.py)\<close>

subsection \<open>Python's \<open>float()\<close>\<close>

text \<open>
  \<open>float(s)\<close> on a string, after the grammar of the language reference: white space is
  stripped at both ends, then an optional sign and \<open>inf\<close>, \<open>infinity\<close> or \<open>nan\<close> in
  any case, or a decimal number whose digits may be grouped by single underscores, with an
  optional exponent. A value beyond the binary64 range is an infinity. \<open>None\<close> stands for
  \<open>ValueError\<close>.

  The white space of \<open>float()\<close>: the ASCII characters tab, line feed, vertical tab, form
  feed, carriage return and space, and beyond ASCII the characters that Unicode classes as
  white space, U+0085 and U+00A0 below 256. The separators U+001C to U+001F, which
  \<open>str.strip\<close> removes, are not among them. The only decimal digits below 256 are the
  ASCII ones.
\<close>

definition is_space :: "char \<Rightarrow> bool" where
  "is_space c = (of_char c \<in> {9::nat, 10, 11, 12, 13, 32, 133, 160})"

definition strip :: "string \<Rightarrow> string" where
  "strip s = rev (dropWhile is_space (rev (dropWhile is_space s)))"

definition is_digit :: "char \<Rightarrow> bool" where
  "is_digit c = (48 \<le> (of_char c :: nat) \<and> (of_char c :: nat) \<le> 57)"

definition digit_val :: "char \<Rightarrow> nat" where
  "digit_val c = of_char c - 48"

definition lower :: "char \<Rightarrow> char" where
  "lower c = (if 65 \<le> (of_char c :: nat) \<and> (of_char c :: nat) \<le> 90
              then char_of (of_char c + (32::nat)) else c)"

fun digit_run :: "string \<Rightarrow> nat list \<Rightarrow> nat list \<times> string" where
  "digit_run [] acc = (acc, [])"
| "digit_run (c # cs) acc =
     (if is_digit c then digit_run cs (acc @ [digit_val c])
      else if c = CHR ''_'' then
        (case cs of
           d # ds \<Rightarrow> if is_digit d then digit_run ds (acc @ [digit_val d]) else (acc, c # cs)
         | [] \<Rightarrow> (acc, c # cs))
      else (acc, c # cs))"

definition digitpart :: "string \<Rightarrow> (nat list \<times> string) option" where
  "digitpart s =
     (case s of
        c # cs \<Rightarrow> if is_digit c then Some (digit_run cs [digit_val c]) else None
      | [] \<Rightarrow> None)"

definition digits_value :: "nat list \<Rightarrow> nat" where
  "digits_value ds = foldl (\<lambda>a d. 10 * a + d) 0 ds"

definition take_sign :: "string \<Rightarrow> bool \<times> string" where
  "take_sign s =
     (case s of
        c # cs \<Rightarrow> if c = CHR ''-'' then (True, cs) else if c = CHR ''+'' then (False, cs)
                  else (False, s)
      | [] \<Rightarrow> (False, s))"

definition parse_exponent :: "string \<Rightarrow> int option" where
  "parse_exponent s =
     (case s of
        [] \<Rightarrow> Some 0
      | c # cs \<Rightarrow>
          if c = CHR ''e'' \<or> c = CHR ''E'' then
            (let (neg, r) = take_sign cs
             in case digitpart r of
                  Some (ds, []) \<Rightarrow> Some (if neg then - int (digits_value ds) else int (digits_value ds))
                | _ \<Rightarrow> None)
          else None)"

text \<open>The number \<open>m * 10 ^ e\<close> that the text denotes.\<close>

definition parse_number :: "string \<Rightarrow> (nat \<times> int) option" where
  "parse_number s =
     (let (ip, r1) = (case digitpart s of Some (ds, r) \<Rightarrow> (ds, r) | None \<Rightarrow> ([], s));
          (fp, r2) =
            (case r1 of
               c # r \<Rightarrow>
                 if c = CHR ''.''
                 then (case digitpart r of Some (ds, r') \<Rightarrow> (ds, r') | None \<Rightarrow> ([], r))
                 else ([], r1)
             | [] \<Rightarrow> ([], r1))
      in if ip = [] \<and> fp = [] then None
         else (case parse_exponent r2 of
                 None \<Rightarrow> None
               | Some e \<Rightarrow> Some (digits_value (ip @ fp), e - int (length fp))))"

definition decimal_value :: "nat \<Rightarrow> int \<Rightarrow> rat" where
  "decimal_value m e = (if 0 \<le> e then of_nat m * 10 ^ nat e else of_nat m / 10 ^ nat (- e))"

text \<open>
  The least magnitude that rounds beyond the largest binary64 value
  \<open>(2^53 - 1) * 2^971\<close>.
\<close>

definition float_overflow :: int where
  "float_overflow = 2 ^ 1024 - 2 ^ 970"

definition round_float :: "bool \<Rightarrow> rat \<Rightarrow> pyfloat" where
  "round_float neg q =
     (if of_int float_overflow \<le> q then (if neg then NegInf else PosInf)
      else Finite (if neg then - q else q))"

definition float_of_str :: "string \<Rightarrow> pyfloat option" where
  "float_of_str s =
     (let (neg, r) = take_sign (strip s); l = map lower r
      in if l = ''inf'' \<or> l = ''infinity'' then Some (if neg then NegInf else PosInf)
         else if l = ''nan'' then Some NaN_float
         else (case parse_number r of
                 None \<Rightarrow> None
               | Some (m, e) \<Rightarrow> Some (round_float neg (decimal_value m e))))"

definition type_name :: "pyval \<Rightarrow> string" where
  "type_name v =
     (case v of
        PNone \<Rightarrow> ''NoneType'' | PBool _ \<Rightarrow> ''bool'' | PInt _ \<Rightarrow> ''int''
      | PFloat _ \<Rightarrow> ''float'' | PStr _ \<Rightarrow> ''str'' | PDatetime _ \<Rightarrow> ''datetime.datetime''
      | PList _ \<Rightarrow> ''list'' | PDict _ \<Rightarrow> ''dict'')"

text \<open>
  \<open>float(v)\<close>: \<open>ValueError\<close> for a string that is no number, \<open>OverflowError\<close> for an
  integer beyond the binary64 range, \<open>TypeError\<close> for a value that is neither a string nor
  a number.
\<close>

definition py_float :: "pyval \<Rightarrow> py_exception + pyfloat" where
  "py_float v =
     (case v of
        PStr s \<Rightarrow>
          (case float_of_str s of
             Some f \<Rightarrow> Inr f
           | None \<Rightarrow>
               Inl (PyExc ValueError (''could not convert string to float: '' @ py_repr s) NoDetails))
      | PInt n \<Rightarrow>
          if float_overflow \<le> \<bar>n\<bar>
          then Inl (PyExc OverflowError ''int too large to convert to float'' NoDetails)
          else Inr (Finite (of_int n))
      | PBool b \<Rightarrow> Inr (Finite (if b then 1 else 0))
      | PFloat f \<Rightarrow> Inr f
      | _ \<Rightarrow>
          Inl (PyExc TypeError
                 (''float() argument must be a string or a real number, not ''
                    @ quote (type_name v)) NoDetails))"

subsection \<open>\<open>Interval.parse_gap_values\<close>\<close>

text \<open>Lines 115-131, the validator run before the type check of both fields.\<close>

definition parse_gap_values :: "pyval \<Rightarrow> py_exception + pyval" where
  "parse_gap_values v =
     (if v = PNone then Inr PNone
      else if (case v of PStr _ \<Rightarrow> True | _ \<Rightarrow> False) then
        (case py_float v of
           Inr f \<Rightarrow> Inr (PFloat f)
         | Inl e \<Rightarrow> if exc_class e = ValueError \<or> exc_class e = TypeError then Inr v else Inl e)
      else
        (case py_float v of
           Inr f \<Rightarrow> Inr (PFloat f)
         | Inl e \<Rightarrow> if exc_class e = ValueError \<or> exc_class e = TypeError then Inr v else Inl e))"

text \<open>
  Lines 112-113, the declared type \<open>Optional[Union[float, str]]\<close> checked on what the
  validator returned: \<open>None\<close>, a float and a string pass, a number is converted, any other
  value is a validation error.
\<close>

definition gap_field_type :: "pyval \<Rightarrow> py_exception + pyval" where
  "gap_field_type v =
     (case v of
        PNone \<Rightarrow> Inr PNone
      | PFloat f \<Rightarrow> Inr (PFloat f)
      | PStr s \<Rightarrow> Inr (PStr s)
      | _ \<Rightarrow>
          (case py_float v of
             Inr f \<Rightarrow> Inr (PFloat f)
           | Inl e \<Rightarrow>
               Inl (PyExc ValidationError
                      ''Input should be a valid number or a valid string'' NoDetails)))"

definition validate_gap :: "pyval \<Rightarrow> py_exception + pyval" where
  "validate_gap v =
     (case parse_gap_values v of
        Inl e \<Rightarrow> Inl e
      | Inr v' \<Rightarrow> gap_field_type v')"

section \<open>The entity ingesters (data_ingestion.py)\<close>

text \<open>\<open>config.BATCH_SIZE\<close> (config.py, line 11).\<close>

definition BATCH_SIZE :: nat where
  "BATCH_SIZE = 5000"

text \<open>
  What the ingesters take from the schema layer: \<open>datetime.fromisoformat\<close> and, for each
  model \<open>M\<close>, the function \<open>M(**item).model_dump()\<close>, which returns the dumped record or
  raises.
\<close>

record schema =
  fromisoformat :: "string \<Rightarrow> py_exception + datetime"
  Session :: "document \<Rightarrow> py_exception + document"
  Driver :: "document \<Rightarrow> py_exception + document"
  Lap :: "document \<Rightarrow> py_exception + document"
  Position :: "document \<Rightarrow> py_exception + document"
  Interval :: "document \<Rightarrow> py_exception + document"
  CarData :: "document \<Rightarrow> py_exception + document"

text \<open>The answer to a \<open>GET\<close>: the status and the JSON array of the body.\<close>

record http_response =
  status :: int
  body :: "document list"

definition dict_get :: "document \<Rightarrow> string \<Rightarrow> pyval \<Rightarrow> pyval" where
  "dict_get item k dflt = (case map_of item k of Some v \<Rightarrow> v | None \<Rightarrow> dflt)"

text \<open>\<open>s.replace('Z', '+00:00')\<close>.\<close>

definition replace_Z :: "string \<Rightarrow> string" where
  "replace_Z s = concat (map (\<lambda>c. if c = CHR ''Z'' then ''+00:00'' else [c]) s)"

text \<open>
  The coercion every loop starts with: when the field holds a string, it is replaced in the
  item by the datetime parsed from it, or the parse raises and the item stays as it was.
\<close>

definition coerce_date ::
  "(string \<Rightarrow> py_exception + datetime) \<Rightarrow> string \<Rightarrow> document \<Rightarrow> py_exception + document" where
  "coerce_date fromiso fld item =
     (case map_of item fld of
        Some (PStr s) \<Rightarrow>
          (case fromiso (replace_Z s) of
             Inl e \<Rightarrow> Inl e
           | Inr dt \<Rightarrow> Inr (AList.update fld (PDatetime dt) item))
      | _ \<Rightarrow> Inr item)"

subsection \<open>\<open>ingest_drivers\<close>\<close>

text \<open>Lines 86-92.\<close>

fun drivers_loop :: "schema \<Rightarrow> document list \<Rightarrow> document list \<Rightarrow> 'st world \<Rightarrow> document list \<times> 'st world" where
  "drivers_loop sch [] drivers w = (drivers, w)"
| "drivers_loop sch (item # rest) drivers w =
     (case Driver sch item of
        Inr driver \<Rightarrow> drivers_loop sch rest (drivers @ [driver]) w
      | Inl e \<Rightarrow>
          drivers_loop sch rest drivers
            (emit [Log WARNING ''Error processing driver {item.get(driver_number, unknown)}: {e}''
                     [AVal (dict_get item ''driver_number'' (PStr ''unknown'')), AStr (exc_str e)]] w))"

text \<open>Lines 77-99.\<close>

definition ingest_drivers ::
  "schema \<Rightarrow> 'st storage option \<Rightarrow> http_response \<Rightarrow> 'st world \<Rightarrow> (py_exception + int) \<times> 'st world" where
  "ingest_drivers sch db response w =
     (if status response = 200 then
        (let data = body response;
             w1 = emit [Log INFO ''  Fetched {len(data)} drivers from API'' [AInt (int (length data))]] w;
             (drivers, w2) = drivers_loop sch data [] w1
         in case bulk_insert db ''drivers'' drivers None w2 of
              (Inl e, w3) \<Rightarrow> (Inl e, w3)
            | (Inr stored, w3) \<Rightarrow>
                (Inr stored, emit [Log INFO '' Stored {count} drivers in database'' [AInt stored]] w3))
      else (Inr 0, emit [Log ERROR '' Failed to fetch drivers data'' []] w))"

subsection \<open>\<open>ingest_laps\<close>\<close>

text \<open>Lines 124-129, the handler of a failed item.\<close>

definition lap_error :: "document \<Rightarrow> py_exception \<Rightarrow> document list \<Rightarrow> 'st world \<Rightarrow> 'st world" where
  "lap_error item e laps w =
     (if length laps < 3 then
        emit [Log WARNING
                ''Error processing lap data for driver {item.get(driver_number, unknown)}: {str(e)[:100]}...''
                [AVal (dict_get item ''driver_number'' (PStr ''unknown'')), AStr (take 100 (exc_str e))]] w
      else if length laps = 3 then
        emit [Log WARNING ''More lap validation errors found... (suppressing further messages)'' []] w
      else w)"

text \<open>
  Lines 110-129. \<open>seen\<close> collects the items as the loop leaves them in \<open>data\<close>: the date
  coercion writes into the item itself.
\<close>

fun laps_loop ::
  "schema \<Rightarrow> 'st storage option \<Rightarrow> document list \<Rightarrow> document list \<Rightarrow> document list \<Rightarrow> 'st world
     \<Rightarrow> document list \<times> document list \<times> 'st world" where
  "laps_loop sch db [] seen laps w = (seen, laps, w)"
| "laps_loop sch db (item # rest) seen laps w =
     (case coerce_date (fromisoformat sch) ''date_start'' item of
        Inl e \<Rightarrow> laps_loop sch db rest (seen @ [item]) laps (lap_error item e laps w)
      | Inr item' \<Rightarrow>
          (case Lap sch item' of
             Inl e \<Rightarrow> laps_loop sch db rest (seen @ [item']) laps (lap_error item' e laps w)
           | Inr lap \<Rightarrow>
               if length (laps @ [lap]) \<ge> BATCH_SIZE then
                 (case bulk_insert db ''laps'' (laps @ [lap]) None w of
                    (Inr n, w') \<Rightarrow>
                      laps_loop sch db rest (seen @ [item']) []
                        (emit [Log DEBUG ''  Processed batch of {config.BATCH_SIZE} laps''
                                 [AInt (int BATCH_SIZE)]] w')
                  | (Inl e, w') \<Rightarrow>
                      laps_loop sch db rest (seen @ [item']) (laps @ [lap])
                        (lap_error item' e (laps @ [lap]) w'))
               else laps_loop sch db rest (seen @ [item']) (laps @ [lap]) w))"

text \<open>Lines 327-335.\<close>

definition validate_lap_item :: "schema \<Rightarrow> document \<Rightarrow> bool" where
  "validate_lap_item sch item =
     (case coerce_date (fromisoformat sch) ''date_start'' item of
        Inl e \<Rightarrow> False
      | Inr item' \<Rightarrow> (case Lap sch item' of Inl e \<Rightarrow> False | Inr lap \<Rightarrow> True))"

text \<open>
  The write of the remainder after a loop, \<open>if records: await self.db.bulk_insert(name, records)\<close>
  (lines 132-133 and again 136-137 for laps).
\<close>

definition flush :: "'st storage option \<Rightarrow> string \<Rightarrow> document list \<Rightarrow> 'st world \<Rightarrow> (py_exception + int) \<times> 'st world" where
  "flush db collection_name records w =
     (if records \<noteq> [] then bulk_insert db collection_name records None w else (Inr 0, w))"

text \<open>Lines 101-145.\<close>

definition ingest_laps ::
  "schema \<Rightarrow> 'st storage option \<Rightarrow> http_response \<Rightarrow> 'st world \<Rightarrow> (py_exception + int) \<times> 'st world" where
  "ingest_laps sch db response w =
     (if status response = 200 then
        (let (data, laps, w1) = laps_loop sch db (body response) [] [] w
         in case flush db ''laps'' laps w1 of
              (Inl e, w2) \<Rightarrow> (Inl e, w2)
            | (Inr n, w2) \<Rightarrow>
                (case flush db ''laps'' laps w2 of
                   (Inl e, w3) \<Rightarrow> (Inl e, w3)
                 | (Inr m, w3) \<Rightarrow>
                     (let total_count = int (length data);
                          successful_count = int (length (filter (validate_lap_item sch) data))
                      in (Inr successful_count,
                          emit [Log INFO ''   Processed {successful_count}/{total_count} laps successfully''
                                  [AInt successful_count, AInt total_count]] w3))))
      else (Inr 0, emit [Log ERROR ''Failed to fetch laps data'' []] w))"

subsection \<open>\<open>ingest_positions\<close>\<close>

definition position_error :: "py_exception \<Rightarrow> 'st world \<Rightarrow> 'st world" where
  "position_error e w =
     emit [Log WARNING ''Error processing position data: {e}'' [AStr (exc_str e)]] w"

text \<open>Lines 156-170.\<close>

fun positions_loop ::
  "schema \<Rightarrow> 'st storage option \<Rightarrow> document list \<Rightarrow> document list \<Rightarrow> 'st world
     \<Rightarrow> document list \<times> 'st world" where
  "positions_loop sch db [] positions w = (positions, w)"
| "positions_loop sch db (item # rest) positions w =
     (case coerce_date (fromisoformat sch) ''date'' item of
        Inl e \<Rightarrow> positions_loop sch db rest positions (position_error e w)
      | Inr item' \<Rightarrow>
          (case Position sch item' of
             Inl e \<Rightarrow> positions_loop sch db rest positions (position_error e w)
           | Inr position \<Rightarrow>
               if length (positions @ [position]) \<ge> BATCH_SIZE then
                 (case bulk_insert db ''positions'' (positions @ [position]) None w of
                    (Inr n, w') \<Rightarrow>
                      positions_loop sch db rest []
                        (emit [Log DEBUG '' Processed batch of {config.BATCH_SIZE} positions''
                                 [AInt (int BATCH_SIZE)]] w')
                  | (Inl e, w') \<Rightarrow>
                      positions_loop sch db rest (positions @ [position]) (position_error e w'))
               else positions_loop sch db rest (positions @ [position]) w))"

text \<open>Lines 147-180.\<close>

definition ingest_positions ::
  "schema \<Rightarrow> 'st storage option \<Rightarrow> http_response \<Rightarrow> 'st world \<Rightarrow> (py_exception + int) \<times> 'st world" where
  "ingest_positions sch db response w =
     (if status response = 200 then
        (let data = body response;
             (positions, w1) = positions_loop sch db data [] w
         in case flush db ''positions'' positions w1 of
              (Inl e, w2) \<Rightarrow> (Inl e, w2)
            | (Inr n, w2) \<Rightarrow>
                (let total_count = int (length data)
                 in (Inr total_count,
                     emit [Log INFO ''Ingested {total_count} position records'' [AInt total_count]] w2)))
      else (Inr 0, emit [Log ERROR ''Failed to fetch position data'' []] w))"

subsection \<open>\<open>ingest_intervals\<close>\<close>

text \<open>Lines 208-215, the handler of a failed item.\<close>

definition interval_error :: "document \<Rightarrow> document list \<Rightarrow> 'st world \<Rightarrow> 'st world" where
  "interval_error item intervals w =
     (if length intervals < 3 then
        emit [Log WARNING
                ''Error processing interval data for driver {item.get(driver_number, unknown)}: gap={gap_value}, interval={interval_value}''
                [AVal (dict_get item ''driver_number'' (PStr ''unknown'')),
                 AVal (dict_get item ''gap_to_leader'' (PStr ''unknown'')),
                 AVal (dict_get item ''interval'' (PStr ''unknown''))]] w
      else if length intervals = 3 then
        emit [Log WARNING ''More interval validation errors found... (suppressing further messages)'' []] w
      else w)"

text \<open>Lines 204-206, after a chunk is written; \<open>n_data\<close> is \<open>len(data)\<close>.\<close>

definition report_progress :: "nat \<Rightarrow> nat \<Rightarrow> 'st world \<Rightarrow> 'st world" where
  "report_progress progress_count n_data w =
     (if progress_count mod (BATCH_SIZE * 5) = 0
      then emit [Log INFO '' Progress: {progress_count:,}/{len(data):,} intervals processed''
                   [AInt (int progress_count), AInt (int n_data)]] w
      else w)"

text \<open>Lines 193-215.\<close>

fun intervals_loop ::
  "schema \<Rightarrow> 'st storage option \<Rightarrow> nat \<Rightarrow> document list \<Rightarrow> document list \<Rightarrow> document list \<Rightarrow> nat
     \<Rightarrow> 'st world \<Rightarrow> document list \<times> document list \<times> 'st world" where
  "intervals_loop sch db n_data [] seen intervals progress_count w = (seen, intervals, w)"
| "intervals_loop sch db n_data (item # rest) seen intervals progress_count w =
     (case coerce_date (fromisoformat sch) ''date'' item of
        Inl e \<Rightarrow>
          intervals_loop sch db n_data rest (seen @ [item]) intervals progress_count
            (interval_error item intervals w)
      | Inr item' \<Rightarrow>
          (case Interval sch item' of
             Inl e \<Rightarrow>
               intervals_loop sch db n_data rest (seen @ [item']) intervals progress_count
                 (interval_error item' intervals w)
           | Inr interval \<Rightarrow>
               if length (intervals @ [interval]) \<ge> BATCH_SIZE then
                 (case bulk_insert db ''intervals'' (intervals @ [interval]) None w of
                    (Inr n, w') \<Rightarrow>
                      intervals_loop sch db n_data rest (seen @ [item']) []
                        (progress_count + BATCH_SIZE)
                        (report_progress (progress_count + BATCH_SIZE) n_data w')
                  | (Inl e, w') \<Rightarrow>
                      intervals_loop sch db n_data rest (seen @ [item']) (intervals @ [interval])
                        progress_count (interval_error item' (intervals @ [interval]) w'))
               else
                 intervals_loop sch db n_data rest (seen @ [item']) (intervals @ [interval])
                   progress_count w))"

text \<open>Lines 337-345.\<close>

definition validate_interval_item :: "schema \<Rightarrow> document \<Rightarrow> bool" where
  "validate_interval_item sch item =
     (case coerce_date (fromisoformat sch) ''date'' item of
        Inl e \<Rightarrow> False
      | Inr item' \<Rightarrow> (case Interval sch item' of Inl e \<Rightarrow> False | Inr interval \<Rightarrow> True))"

text \<open>Lines 182-229.\<close>

definition ingest_intervals ::
  "schema \<Rightarrow> 'st storage option \<Rightarrow> http_response \<Rightarrow> 'st world \<Rightarrow> (py_exception + int) \<times> 'st world" where
  "ingest_intervals sch db response w =
     (if status response = 200 then
        (let w0 = emit [Log INFO '' Fetched {len(data)} intervals from API''
                          [AInt (int (length (body response)))]] w;
             (data, intervals, w1) =
               intervals_loop sch db (length (body response)) (body response) [] [] 0 w0
         in case flush db ''intervals'' intervals w1 of
              (Inl e, w2) \<Rightarrow> (Inl e, w2)
            | (Inr n, w2) \<Rightarrow>
                (case flush db ''intervals'' intervals w2 of
                   (Inl e, w3) \<Rightarrow> (Inl e, w3)
                 | (Inr m, w3) \<Rightarrow>
                     (let total_count = int (length data);
                          successful_count = int (length (filter (validate_interval_item sch) data))
                      in (Inr successful_count,
                          emit [Log INFO '' Processed {successful_count}/{total_count} intervals successfully''
                                  [AInt successful_count, AInt total_count]] w3))))
      else (Inr 0, emit [Log ERROR ''Failed to fetch intervals data'' []] w))"

subsection \<open>Car telemetry\<close>

text \<open>Lines 314-319, the handler of a failed item.\<close>

definition car_data_error :: "document \<Rightarrow> py_exception \<Rightarrow> int \<Rightarrow> 'st world \<Rightarrow> 'st world" where
  "car_data_error item e successful_count w =
     (if successful_count < 3 then
        emit [Log WARNING
                ''Error processing car data for driver {item.get(driver_number, unknown)}: {str(e)[:100]}...''
                [AVal (dict_get item ''driver_number'' (PStr ''unknown'')), AStr (take 100 (exc_str e))]] w
      else if successful_count = 3 then
        emit [Log WARNING ''More car data validation errors found... (suppressing further messages)'' []] w
      else w)"

text \<open>Lines 301-319.\<close>

fun car_data_loop ::
  "schema \<Rightarrow> 'st storage option \<Rightarrow> document list \<Rightarrow> document list \<Rightarrow> int \<Rightarrow> 'st world
     \<Rightarrow> document list \<times> int \<times> 'st world" where
  "car_data_loop sch db [] car_data_records successful_count w =
     (car_data_records, successful_count, w)"
| "car_data_loop sch db (item # rest) car_data_records successful_count w =
     (case coerce_date (fromisoformat sch) ''date'' item of
        Inl e \<Rightarrow>
          car_data_loop sch db rest car_data_records successful_count
            (car_data_error item e successful_count w)
      | Inr item' \<Rightarrow>
          (case CarData sch item' of
             Inl e \<Rightarrow>
               car_data_loop sch db rest car_data_records successful_count
                 (car_data_error item' e successful_count w)
           | Inr car_data \<Rightarrow>
               if length (car_data_records @ [car_data]) \<ge> BATCH_SIZE then
                 (case bulk_insert db ''car_data'' (car_data_records @ [car_data]) None w of
                    (Inr n, w') \<Rightarrow> car_data_loop sch db rest [] (successful_count + 1) w'
                  | (Inl e, w') \<Rightarrow>
                      car_data_loop sch db rest (car_data_records @ [car_data])
                        (successful_count + 1)
                        (car_data_error item' e (successful_count + 1) w'))
               else
                 car_data_loop sch db rest (car_data_records @ [car_data])
                   (successful_count + 1) w))"

text \<open>Lines 296-325.\<close>

definition process_car_data_batch ::
  "schema \<Rightarrow> 'st storage option \<Rightarrow> document list \<Rightarrow> 'st world \<Rightarrow> (py_exception + int) \<times> 'st world" where
  "process_car_data_batch sch db data w =
     (let (car_data_records, successful_count, w1) = car_data_loop sch db data [] 0 w
      in case flush db ''car_data'' car_data_records w1 of
           (Inl e, w2) \<Rightarrow> (Inl e, w2)
         | (Inr n, w2) \<Rightarrow> (Inr successful_count, w2))"







subsection \<open>The upstream's speed filters\<close>

text \<open>
  Modelled from the spec: the range expressions of section 6, \<open>speed=0\<close>,
  \<open>speed>=A&speed<B\<close> and \<open>speed>=C\<close>, read on an integer speed.
\<close>

definition speed_in_range :: "string \<Rightarrow> int \<Rightarrow> bool" where
  "speed_in_range speed_filter s =
     (if speed_filter = ''speed=0'' then s = 0
      else if speed_filter = ''speed>=1&speed<150'' then 1 \<le> s \<and> s < 150
      else if speed_filter = ''speed>=150&speed<350'' then 150 \<le> s \<and> s < 350
      else if speed_filter = ''speed>=350'' then 350 \<le> s
      else False)"

text \<open>A record is selected by a filter when its speed is an integer in the range.\<close>

definition selected :: "string \<Rightarrow> document \<Rightarrow> bool" where
  "selected speed_filter r =
     (case map_of r ''speed'' of Some (PInt s) \<Rightarrow> speed_in_range speed_filter s | _ \<Rightarrow> False)"


section \<open>Session discovery (data_ingestion.py, main.py)\<close>

subsection \<open>Python's \<open>==\<close>, \<open>>\<close> and \<open>max\<close>\<close>

definition num_of :: "pyval \<Rightarrow> pyfloat option" where
  "num_of v =
     (case v of
        PBool b \<Rightarrow> Some (Finite (if b then 1 else 0))
      | PInt n \<Rightarrow> Some (Finite (of_int n))
      | PFloat f \<Rightarrow> Some f
      | _ \<Rightarrow> None)"

definition float_gt :: "pyfloat \<Rightarrow> pyfloat \<Rightarrow> bool" where
  "float_gt a b =
     (case (a, b) of
        (Finite x, Finite y) \<Rightarrow> x > y
      | (PosInf, Finite y) \<Rightarrow> True
      | (PosInf, NegInf) \<Rightarrow> True
      | (Finite x, NegInf) \<Rightarrow> True
      | _ \<Rightarrow> False)"

text \<open>\<open>a == b\<close>: numbers by value, lists by elements, dicts by keys, the rest by identity of value.\<close>

fun py_eq :: "pyval \<Rightarrow> pyval \<Rightarrow> bool" where
  "py_eq (PList xs) (PList ys) = list_all2 py_eq xs ys"
| "py_eq (PDict a) (PDict b) =
     (length a = length b
      \<and> list_all (\<lambda>(k, v). case map_of b k of Some v' \<Rightarrow> py_eq v v' | None \<Rightarrow> False) a)"
| "py_eq a b =
     (case (num_of a, num_of b) of
        (Some x, Some y) \<Rightarrow> x = y \<and> x \<noteq> NaN_float
      | (None, None) \<Rightarrow> a = b
      | _ \<Rightarrow> False)"

definition not_supported :: "pyval \<Rightarrow> pyval \<Rightarrow> py_exception" where
  "not_supported a b =
     PyExc TypeError
       (quote ''>'' @ '' not supported between instances of '' @ quote (type_name a)
          @ '' and '' @ quote (type_name b)) NoDetails"

text \<open>
  \<open>a > b\<close>: strings by code points, numbers by value, datetimes by instant, lists by their
  first differing elements; \<open>TypeError\<close> for any other pair.
\<close>

fun py_gt :: "pyval \<Rightarrow> pyval \<Rightarrow> py_exception + bool"
  and list_gt :: "pyval list \<Rightarrow> pyval list \<Rightarrow> py_exception + bool" where
  "py_gt (PStr a) (PStr b) = Inr (a > b)"
| "py_gt (PDatetime (Datetime a)) (PDatetime (Datetime b)) = Inr (a > b)"
| "py_gt (PList xs) (PList ys) = list_gt xs ys"
| "py_gt a b =
     (case (num_of a, num_of b) of
        (Some x, Some y) \<Rightarrow> Inr (float_gt x y)
      | _ \<Rightarrow> Inl (not_supported a b))"
| "list_gt [] ys = Inr False"
| "list_gt (x # xs) [] = Inr True"
| "list_gt (x # xs) (y # ys) = (if py_eq x y then list_gt xs ys else py_gt x y)"

text \<open>
  \<open>max(items, key=key)\<close>: the key of every item is computed, and an item replaces the
  maximum held when its key is greater.
\<close>

fun max_loop ::
  "(document \<Rightarrow> py_exception + pyval) \<Rightarrow> document list \<Rightarrow> document \<Rightarrow> pyval \<Rightarrow> py_exception + document" where
  "max_loop key [] max_item max_val = Inr max_item"
| "max_loop key (item # rest) max_item max_val =
     (case key item of
        Inl e \<Rightarrow> Inl e
      | Inr val \<Rightarrow>
          (case py_gt val max_val of
             Inl e \<Rightarrow> Inl e
           | Inr is_greater \<Rightarrow>
               if is_greater then max_loop key rest item val
               else max_loop key rest max_item max_val))"

definition py_max :: "(document \<Rightarrow> py_exception + pyval) \<Rightarrow> document list \<Rightarrow> py_exception + document" where
  "py_max key items =
     (case items of
        [] \<Rightarrow> Inl (PyExc ValueError ''max() arg is an empty sequence'' NoDetails)
      | item # rest \<Rightarrow>
          (case key item of Inl e \<Rightarrow> Inl e | Inr val \<Rightarrow> max_loop key rest item val))"

subsection \<open>\<open>fetch_latest_session\<close> and \<open>run_test_ingestion\<close>\<close>

text \<open>\<open>x[k]\<close> on a dict.\<close>

definition subscript :: "document \<Rightarrow> string \<Rightarrow> py_exception + pyval" where
  "subscript x k = (case map_of x k of None \<Rightarrow> Inl (key_error k) | Some v \<Rightarrow> Inr v)"

definition could_not_fetch :: py_exception where
  "could_not_fetch = PyExc PlainException ''Could not fetch latest session'' NoDetails"

text \<open>data_ingestion.py, lines 27-40. \<open>response\<close> answers the discovery request.\<close>

definition fetch_latest_session :: "http_response \<Rightarrow> 'st world \<Rightarrow> (py_exception + document) \<times> 'st world" where
  "fetch_latest_session response w =
     (if status response = 200 \<and> body response \<noteq> [] then
        (case py_max (\<lambda>x. subscript x ''date_start'') (body response) of
           Inl e \<Rightarrow> (Inl e, w)
         | Inr latest_session \<Rightarrow>
             (case subscript latest_session ''session_name'' of
                Inl e \<Rightarrow> (Inl e, w)
              | Inr session_name \<Rightarrow>
                  (case subscript latest_session ''location'' of
                     Inl e \<Rightarrow> (Inl e, w)
                   | Inr location \<Rightarrow>
                       (Inr latest_session,
                        emit [Log INFO ''Found latest race: {latest_session[session_name]} - {latest_session[location]}''
                                [AVal session_name, AVal location]] w))))
      else (Inl could_not_fetch, w))"

text \<open>
  main.py, lines 22-35, the body of the \<open>try\<close>. \<open>ingest_session_data\<close> is the rest of the
  run, given the session key.
\<close>

definition run_try ::
  "schema \<Rightarrow> 'st storage option \<Rightarrow> http_response
     \<Rightarrow> (pyval \<Rightarrow> 'st world \<Rightarrow> (py_exception + unit) \<times> 'st world)
     \<Rightarrow> 'st world \<Rightarrow> (py_exception + unit) \<times> 'st world" where
  "run_try sch db response ingest_session_data w =
     (case fetch_latest_session response w of
        (Inl e, w1) \<Rightarrow> (Inl e, w1)
      | (Inr latest_session, w1) \<Rightarrow>
          (case subscript latest_session ''session_key'' of
             Inl e \<Rightarrow> (Inl e, w1)
           | Inr session_key \<Rightarrow>
               (case Session sch latest_session of
                  Inl e \<Rightarrow> (Inl e, w1)
                | Inr session \<Rightarrow>
                    (case bulk_insert db ''sessions'' [session] (Some ''session_key'') w1 of
                       (Inl e, w2) \<Rightarrow> (Inl e, w2)
                     | (Inr n, w2) \<Rightarrow>
                         (case ingest_session_data session_key w2 of
                            (Inl e, w3) \<Rightarrow> (Inl e, w3)
                          | (Inr u, w3) \<Rightarrow>
                              (Inr (),
                               emit [Log SUCCESS ''Test data ingestion completed successfully!'' []]
                                 w3))))))"

text \<open>
  main.py, lines 16-39. \<open>aenter\<close> and \<open>aexit\<close> are what entering and leaving
  \<open>async with TestDataIngestion()\<close> do to the world (connecting, ensuring the indexes,
  disconnecting); the handler logs the failure and raises it again.
\<close>

definition run_test_ingestion ::
  "schema \<Rightarrow> 'st storage option \<Rightarrow> ('st world \<Rightarrow> 'st world) \<Rightarrow> ('st world \<Rightarrow> 'st world)
     \<Rightarrow> http_response \<Rightarrow> (pyval \<Rightarrow> 'st world \<Rightarrow> (py_exception + unit) \<times> 'st world)
     \<Rightarrow> 'st world \<Rightarrow> (py_exception + unit) \<times> 'st world" where
  "run_test_ingestion sch db aenter aexit response ingest_session_data w =
     (case run_try sch db response ingest_session_data
             (aenter (emit [Log INFO ''Starting test data ingestion...'' []] w)) of
        (Inl e, w') \<Rightarrow>
          (Inl e, aexit (emit [Log ERROR ''Test ingestion failed: {e}'' [AStr (exc_str e)]] w'))
      | (Inr u, w') \<Rightarrow> (Inr u, aexit w'))"

section \<open>Notions used to state the properties of the ingesters\<close>

text \<open>
  Cutting a sequence of records into full chunks of \<open>n\<close>, starting from a buffer: the full
  chunks in order, and the records left in the buffer.
\<close>

fun chunks :: "nat \<Rightarrow> 'a list \<Rightarrow> 'a list \<Rightarrow> 'a list list \<times> 'a list" where
  "chunks n buf [] = ([], buf)"
| "chunks n buf (x # xs) =
     (if length (buf @ [x]) \<ge> n
      then ((buf @ [x]) # fst (chunks n [] xs), snd (chunks n [] xs))
      else chunks n (buf @ [x]) xs)"

text \<open>The dump of an item that passes coercion and validation, \<open>None\<close> for one that fails.\<close>

definition dump_of ::
  "(string \<Rightarrow> py_exception + datetime) \<Rightarrow> string \<Rightarrow> (document \<Rightarrow> py_exception + document)
     \<Rightarrow> document \<Rightarrow> document option" where
  "dump_of fromiso fld model item =
     (case coerce_date fromiso fld item of
        Inl e \<Rightarrow> None
      | Inr item' \<Rightarrow> (case model item' of Inl e \<Rightarrow> None | Inr d \<Rightarrow> Some d))"

definition valid_dumps ::
  "(string \<Rightarrow> py_exception + datetime) \<Rightarrow> string \<Rightarrow> (document \<Rightarrow> py_exception + document)
     \<Rightarrow> document list \<Rightarrow> document list" where
  "valid_dumps fromiso fld model data = List.map_filter (dump_of fromiso fld model) data"

text \<open>The item as the date coercion leaves it in \<open>data\<close>.\<close>

definition coerced :: "(string \<Rightarrow> py_exception + datetime) \<Rightarrow> string \<Rightarrow> document \<Rightarrow> document" where
  "coerced fromiso fld item =
     (case coerce_date fromiso fld item of Inl e \<Rightarrow> item | Inr item' \<Rightarrow> item')"

text \<open>The dumps of the driver items that pass validation.\<close>

definition driver_dumps :: "schema \<Rightarrow> document list \<Rightarrow> document list" where
  "driver_dumps sch data =
     List.map_filter (\<lambda>item. case Driver sch item of Inl e \<Rightarrow> None | Inr d \<Rightarrow> Some d) data"




section \<open>Test doubles\<close>

text \<open>A storage that accepts every request and keeps the list of the requests received.\<close>

definition recording_storage :: "(string \<times> document list) list storage" where
  "recording_storage =
     \<lparr>insert_many =
        (\<lambda>c ds st. (Inr \<lparr>inserted_ids = map (id_of ''_id'') ds\<rparr>, st @ [(c, ds)])),
      bulk_write =
        (\<lambda>c ops st. (Inr \<lparr>upserted_count = int (length ops), modified_count = 0\<rparr>,
                      st @ [(c, map set_doc ops)]))\<rparr>"

text \<open>The documents of the requests that a recording storage has received.\<close>

definition written :: "(string \<times> document list) list \<Rightarrow> document list" where
  "written requests = concat (map snd requests)"

text \<open>
  The models of models.py, for concrete runs. A model is the list of the fields it declares:
  the name, the type and whether the field is required. It accepts an item when every
  required field holds a value of its type and every optional field is absent, \<open>None\<close> or
  holds a value of its type; an integer is taken where a float is declared, an ISO string
  where a datetime is, and the two gap fields of \<open>Interval\<close> go through
  \<^const>\<open>validate_gap\<close>. The dump holds the declared fields in their order, \<open>None\<close> for an
  optional field that is absent; a field that is not declared is ignored. An exception
  other than a validation error leaves the model at once; validation errors are collected
  and raised at the end.

  Two things are not reproduced. A value that pydantic would convert from another type (a
  numeric string where an integer is declared, say) is refused. The report of a validation
  error is one fixed text.
\<close>

datatype kind = KInt | KStr | KFloat | KBool | KDatetime | KIntList | KGap

type_synonym field = "string \<times> kind \<times> bool"

definition validation_error :: py_exception where
  "validation_error = PyExc ValidationError ''1 validation error: Field required'' NoDetails"

definition int_or_none :: "pyval \<Rightarrow> bool" where
  "int_or_none v = (case v of PNone \<Rightarrow> True | PInt n \<Rightarrow> True | _ \<Rightarrow> False)"

fun check_kind :: "(string \<Rightarrow> py_exception + datetime) \<Rightarrow> kind \<Rightarrow> pyval \<Rightarrow> pyval option" where
  "check_kind fromiso KInt (PInt n) = Some (PInt n)"
| "check_kind fromiso KStr (PStr s) = Some (PStr s)"
| "check_kind fromiso KFloat (PFloat f) = Some (PFloat f)"
| "check_kind fromiso KFloat (PInt n) =
     (case py_float (PInt n) of Inr f \<Rightarrow> Some (PFloat f) | Inl e \<Rightarrow> None)"
| "check_kind fromiso KBool (PBool b) = Some (PBool b)"
| "check_kind fromiso KDatetime (PDatetime t) = Some (PDatetime t)"
| "check_kind fromiso KDatetime (PStr s) =
     (case fromiso s of Inr t \<Rightarrow> Some (PDatetime t) | Inl e \<Rightarrow> None)"
| "check_kind fromiso KIntList (PList xs) = (if list_all int_or_none xs then Some (PList xs) else None)"
| "check_kind fromiso k v = None"

definition validate_field ::
  "(string \<Rightarrow> py_exception + datetime) \<Rightarrow> field \<Rightarrow> document \<Rightarrow> py_exception + pyval" where
  "validate_field fromiso f item =
     (case f of
        (name, k, required) \<Rightarrow>
          (case map_of item name of
             None \<Rightarrow> if required then Inl validation_error else Inr PNone
           | Some v \<Rightarrow>
               if k = KGap then validate_gap v
               else if v = PNone \<and> \<not> required then Inr PNone
               else (case check_kind fromiso k v of
                       Some v' \<Rightarrow> Inr v'
                     | None \<Rightarrow> Inl validation_error)))"

fun validate_fields ::
  "(string \<Rightarrow> py_exception + datetime) \<Rightarrow> field list \<Rightarrow> document \<Rightarrow> document \<Rightarrow> bool
     \<Rightarrow> py_exception + document" where
  "validate_fields fromiso [] item dump failed =
     (if failed then Inl validation_error else Inr dump)"
| "validate_fields fromiso (f # fs) item dump failed =
     (case validate_field fromiso f item of
        Inr v \<Rightarrow> validate_fields fromiso fs item (dump @ [(fst f, v)]) failed
      | Inl e \<Rightarrow>
          if exc_class e = ValidationError then validate_fields fromiso fs item dump True
          else Inl e)"

definition base_model ::
  "(string \<Rightarrow> py_exception + datetime) \<Rightarrow> field list \<Rightarrow> document \<Rightarrow> py_exception + document" where
  "base_model fromiso declared item = validate_fields fromiso declared item [] False"

text \<open>models.py, lines 12-23, 40-55, 57-70, 72-96, 98-104 and 106-113.\<close>

definition car_data_fields :: "field list" where
  "car_data_fields =
     [(''session_key'', KInt, True), (''meeting_key'', KInt, False),
      (''driver_number'', KInt, True), (''date'', KDatetime, True), (''rpm'', KInt, False),
      (''speed'', KInt, False), (''n_gear'', KInt, False), (''throttle'', KFloat, False),
      (''brake'', KInt, False), (''drs'', KInt, False)]"

definition session_fields :: "field list" where
  "session_fields =
     [(''session_key'', KInt, True), (''session_name'', KStr, True),
      (''session_type'', KStr, True), (''meeting_key'', KInt, True), (''location'', KStr, True),
      (''country_key'', KInt, True), (''country_code'', KStr, True),
      (''country_name'', KStr, True), (''circuit_key'', KInt, True),
      (''circuit_short_name'', KStr, True), (''date_start'', KDatetime, True),
      (''date_end'', KDatetime, True), (''gmt_offset'', KStr, True), (''year'', KInt, True)]"

definition driver_fields :: "field list" where
  "driver_fields =
     [(''session_key'', KInt, True), (''meeting_key'', KInt, False),
      (''driver_number'', KInt, True), (''broadcast_name'', KStr, False),
      (''country_code'', KStr, False), (''first_name'', KStr, False),
      (''full_name'', KStr, False), (''last_name'', KStr, False), (''team_colour'', KStr, False),
      (''team_name'', KStr, False), (''name_acronym'', KStr, False),
      (''headshot_url'', KStr, False)]"

definition lap_fields :: "field list" where
  "lap_fields =
     [(''session_key'', KInt, True), (''meeting_key'', KInt, False),
      (''driver_number'', KInt, True), (''date_start'', KDatetime, False),
      (''lap_number'', KInt, True), (''lap_duration'', KFloat, False),
      (''is_pit_out_lap'', KBool, False), (''stint_number'', KInt, False),
      (''duration_sector_1'', KFloat, False), (''duration_sector_2'', KFloat, False),
      (''duration_sector_3'', KFloat, False), (''i1_speed'', KInt, False),
      (''i2_speed'', KInt, False), (''st_speed'', KInt, False),
      (''segments_sector_1'', KIntList, False), (''segments_sector_2'', KIntList, False),
      (''segments_sector_3'', KIntList, False), (''sectors_sector_1'', KFloat, False),
      (''sectors_sector_2'', KFloat, False), (''sectors_sector_3'', KFloat, False)]"

definition position_fields :: "field list" where
  "position_fields =
     [(''session_key'', KInt, True), (''meeting_key'', KInt, False),
      (''driver_number'', KInt, True), (''date'', KDatetime, True), (''position'', KInt, True)]"

definition interval_fields :: "field list" where
  "interval_fields =
     [(''session_key'', KInt, True), (''meeting_key'', KInt, False),
      (''driver_number'', KInt, True), (''date'', KDatetime, True),
      (''gap_to_leader'', KGap, False), (''interval'', KGap, False)]"

text \<open>
  \<open>datetime.fromisoformat\<close> on the instants of the sample records, in seconds since the
  epoch; any other text is taken for one that is not in ISO format.
\<close>

definition sample_instants :: "(string \<times> int) list" where
  "sample_instants =
     [(''2024-03-02T15:00:00+00:00'', 1709391600), (''2024-09-01T13:00:00+00:00'', 1725195600),
      (''2024-12-08T13:00:00+00:00'', 1733662800), (''2024-12-08T15:00:00+00:00'', 1733670000)]"

definition sample_fromisoformat :: "string \<Rightarrow> py_exception + datetime" where
  "sample_fromisoformat s =
     (case map_of sample_instants s of
        Some t \<Rightarrow> Inr (Datetime t)
      | None \<Rightarrow> Inl (PyExc ValueError (''Invalid isoformat string: '' @ py_repr s) NoDetails))"

definition sample_schema :: schema where
  "sample_schema =
     \<lparr>fromisoformat = sample_fromisoformat,
      Session = base_model sample_fromisoformat session_fields,
      Driver = base_model sample_fromisoformat driver_fields,
      Lap = base_model sample_fromisoformat lap_fields,
      Position = base_model sample_fromisoformat position_fields,
      Interval = base_model sample_fromisoformat interval_fields,
      CarData = base_model sample_fromisoformat car_data_fields\<rparr>"

text \<open>Sample records, as the upstream sends them: every field of the model, in its order.\<close>

definition sample_lap :: document where
  "sample_lap =
     [(''session_key'', PInt 9158), (''meeting_key'', PInt 1244), (''driver_number'', PInt 44),
      (''date_start'', PNone), (''lap_number'', PInt 1), (''lap_duration'', PNone),
      (''is_pit_out_lap'', PBool True), (''stint_number'', PInt 1),
      (''duration_sector_1'', PNone), (''duration_sector_2'', PNone),
      (''duration_sector_3'', PNone), (''i1_speed'', PInt 307), (''i2_speed'', PInt 277),
      (''st_speed'', PInt 298), (''segments_sector_1'', PList [PNone, PInt 2049]),
      (''segments_sector_2'', PNone), (''segments_sector_3'', PNone),
      (''sectors_sector_1'', PNone), (''sectors_sector_2'', PNone),
      (''sectors_sector_3'', PNone)]"

definition sample_session :: "int \<Rightarrow> string \<Rightarrow> document" where
  "sample_session k d =
     [(''session_key'', PInt k), (''session_name'', PStr ''Race''), (''session_type'', PStr ''Race''),
      (''meeting_key'', PInt 1244), (''location'', PStr ''Monza''), (''country_key'', PInt 13),
      (''country_code'', PStr ''ITA''), (''country_name'', PStr ''Italy''),
      (''circuit_key'', PInt 39), (''circuit_short_name'', PStr ''Monza''),
      (''date_start'', PStr d), (''date_end'', PStr ''2024-12-08T15:00:00+00:00''),
      (''gmt_offset'', PStr ''02:00:00''), (''year'', PInt 2024)]"

definition sample_position :: document where
  "sample_position =
     [(''session_key'', PInt 9158), (''meeting_key'', PInt 1244), (''driver_number'', PInt 44),
      (''date'', PStr ''2024-09-01T13:00:00+00:00''), (''position'', PInt 3)]"

definition sample_driver :: document where
  "sample_driver =
     [(''session_key'', PInt 9158), (''meeting_key'', PInt 1244), (''driver_number'', PInt 44),
      (''broadcast_name'', PStr ''L HAMILTON''), (''country_code'', PStr ''GBR''),
      (''first_name'', PStr ''Lewis''), (''full_name'', PStr ''Lewis HAMILTON''),
      (''last_name'', PStr ''Hamilton''), (''team_colour'', PStr ''27F4D2''),
      (''team_name'', PStr ''Mercedes''), (''name_acronym'', PStr ''HAM''),
      (''headshot_url'', PNone)]"

definition sample_interval :: document where
  "sample_interval =
     [(''session_key'', PInt 9158), (''meeting_key'', PInt 1244), (''driver_number'', PInt 44),
      (''date'', PStr ''2024-09-01T13:00:00+00:00''), (''gap_to_leader'', PStr ''+1 LAP''),
      (''interval'', PNone)]"


text \<open>The sample records with the date parsed, as the ingesters hand them to the model.\<close>

definition sample_instant :: pyval where
  "sample_instant = PDatetime (Datetime 1725195600)"

section \<open>Properties of the batch writer\<close>


lemma build_operations_missing:
  "\<exists>d \<in> set docs. map_of d k = None \<Longrightarrow> build_operations k docs ops = Inl (key_error k)"
  by (induction docs arbitrary: ops) (auto split: option.splits)

lemma bulk_insert_returns: "\<exists>n. fst (bulk_insert db c docs key w) = Inr n"
  by (auto simp: bulk_insert_def split: prod.splits sum.splits)

lemma bulk_insert_empty: "bulk_insert db c [] key w = (Inr 0, w)"
  by (simp add: bulk_insert_def)






text \<open>
  Claim C10. In upsert mode, when the list is not empty and some document lacks the key
  field, building the operations raises \<open>KeyError\<close> before any request is issued: whatever
  the storage is, its state is unchanged, one error record is logged, nothing is raised and
  \<open>0\<close> is returned.
\<close>

theorem bulk_insert_missing_upsert_key:
  assumes "docs \<noteq> []" and "k \<noteq> []" and "\<exists>d \<in> set docs. map_of d k = None"
  shows "bulk_insert db c docs (Some k) w =
          (Inr 0, \<lparr>db_state = db_state w, logs = logs w @
             [Log ERROR ''Error bulk inserting to {collection_name}: {error_msg}''
                [AStr c, AStr (summarize (exc_str
                   (if db = None then none_not_subscriptable else key_error k)))]]\<rparr>)"
  using assms build_operations_missing [of docs k "[]"]
  by (cases db) (simp_all add: bulk_insert_def bulk_insert_try_def key_given_def emit_def)

theorem bulk_insert_missing_upsert_key_witness:
  "[[(''session_key'', PInt 9158)], [(''location'', PStr ''Monza'')]] \<noteq> []
   \<and> ''session_key'' \<noteq> []
   \<and> (\<exists>d \<in> set [[(''session_key'', PInt 9158)], [(''location'', PStr ''Monza'')]].
         map_of d ''session_key'' = None)
   \<and> bulk_insert (Some (ref_storage ''_id'')) ''sessions''
        [[(''session_key'', PInt 9158)], [(''location'', PStr ''Monza'')]] (Some ''session_key'')
        \<lparr>db_state = (\<lambda>c. []), logs = []\<rparr> =
       (Inr 0, \<lparr>db_state = (\<lambda>c. []), logs =
          [Log ERROR ''Error bulk inserting to {collection_name}: {error_msg}''
             [AStr ''sessions'', AStr (quote ''session_key'')]]\<rparr>)"
  using bulk_insert_missing_upsert_key
    [of "[[(''session_key'', PInt 9158)], [(''location'', PStr ''Monza'')]]"
      "''session_key''" "Some (ref_storage ''_id'')" "''sessions''"
      "\<lparr>db_state = (\<lambda>c. []), logs = []\<rparr>"]
  by (simp add: key_error_def summarize_def quote_def py_repr_def repr_char_def printable_def
      Let_def)

lemma stored_key_keys:
  "stored_key ukey xs d \<longleftrightarrow> map_of d ukey \<in> (\<lambda>x. map_of x ukey) ` set xs"
  unfolding stored_key_def image_iff by (auto dest: sym)

lemma insert_each_newly_written:
  "(\<lambda>x. map_of x ukey) ` set stored = (\<lambda>x. map_of x ukey) ` set present \<Longrightarrow>
   insert_each ukey docs stored inserted =
     (stored @ newly_written ukey present docs, inserted @ newly_written ukey present docs)"
proof (induction docs arbitrary: stored present inserted)
  case Nil
  then show ?case by simp
next
  case (Cons d ds)
  have same: "is_duplicate ukey stored d = is_duplicate ukey present d"
    using Cons.prems by (simp add: is_duplicate_def stored_key_keys)
  show ?case
  proof (cases "is_duplicate ukey present d")
    case True
    then have "map_of d ukey \<in> (\<lambda>x. map_of x ukey) ` set present"
      by (simp add: is_duplicate_def stored_key_keys)
    then have inv: "(\<lambda>x. map_of x ukey) ` set stored = (\<lambda>x. map_of x ukey) ` set (present @ [d])"
      using Cons.prems by auto
    show ?thesis
      using True same Cons.IH [OF inv, of inserted] by simp
  next
    case False
    have inv: "(\<lambda>x. map_of x ukey) ` set (stored @ [d])
             = (\<lambda>x. map_of x ukey) ` set (present @ [d])"
      using Cons.prems by simp
    show ?thesis
      using False same Cons.IH [OF inv, of "inserted @ [d]"] by simp
  qed
qed

lemma length_newly_written:
  "length (newly_written ukey present docs) + length (duplicates ukey present docs) = length docs"
  by (induction docs arbitrary: present) simp_all

lemma is_duplicate_earlier:
  assumes "carries_key ukey d \<Longrightarrow> map_of d ukey \<notin> (\<lambda>x. map_of x ukey) ` set earlier"
  shows "is_duplicate ukey (stored @ earlier) d = is_duplicate ukey stored d"
  using assms by (auto simp: is_duplicate_def stored_key_keys)

lemma carried_keys_differ:
  "carries_key ukey x \<Longrightarrow> \<not> carries_key ukey d \<Longrightarrow> map_of x ukey \<noteq> map_of d ukey"
  by (auto simp: carries_key_def split: if_splits)

lemma duplicates_distinct:
  "distinct (map (\<lambda>d. map_of d ukey) (filter (carries_key ukey) docs)) \<Longrightarrow>
   \<forall>d \<in> set docs. carries_key ukey d \<longrightarrow> map_of d ukey \<notin> (\<lambda>x. map_of x ukey) ` set earlier \<Longrightarrow>
   duplicates ukey (stored @ earlier) docs = filter (is_duplicate ukey stored) docs"
proof (induction docs arbitrary: earlier)
  case Nil
  then show ?case by simp
next
  case (Cons d ds)
  have here: "is_duplicate ukey (stored @ earlier) d = is_duplicate ukey stored d"
    using Cons.prems(2) by (intro is_duplicate_earlier) simp
  have dist: "distinct (map (\<lambda>d. map_of d ukey) (filter (carries_key ukey) ds))"
    using Cons.prems(1) by (simp split: if_splits)
  have later: "\<forall>x \<in> set ds. carries_key ukey x
      \<longrightarrow> map_of x ukey \<notin> (\<lambda>x. map_of x ukey) ` set (earlier @ [d])"
  proof (intro ballI impI)
    fix x assume x: "x \<in> set ds" and cx: "carries_key ukey x"
    have a: "map_of x ukey \<notin> (\<lambda>x. map_of x ukey) ` set earlier"
      using Cons.prems(2) x cx by simp
    have b: "map_of x ukey \<noteq> map_of d ukey"
    proof (cases "carries_key ukey d")
      case True
      then have "map_of d ukey \<notin> (\<lambda>d. map_of d ukey) ` set (filter (carries_key ukey) ds)"
        using Cons.prems(1) by simp
      moreover have "x \<in> set (filter (carries_key ukey) ds)"
        using x cx by simp
      ultimately show ?thesis by (metis image_eqI)
    next
      case False
      show ?thesis using cx False by (rule carried_keys_differ)
    qed
    show "map_of x ukey \<notin> (\<lambda>x. map_of x ukey) ` set (earlier @ [d])"
      using a b by auto
  qed
  have rest: "duplicates ukey (stored @ earlier @ [d]) ds = filter (is_duplicate ukey stored) ds"
    by (rule Cons.IH [OF dist later])
  show ?case
    using here rest by simp
qed

lemma contains_duplicate:
  "str_contains ''duplicate key error'' (exc_str (duplicate_key_error c n))"
  by (induction c) (simp_all add: duplicate_key_error_def)

text \<open>
  Claim C1. Against the reference storage, in insert mode, a non-empty list of \<open>N\<close>
  documents of which \<open>K\<close> are duplicates (their key is stored already, or an earlier
  document of the list carries it) makes the batch writer return \<open>N - K\<close>: the \<open>N - K\<close>
  other documents are stored, the \<open>K\<close> duplicates are reported in one debug record (when
  \<open>K > 0\<close>), and the call returns instead of raising. When the keys carried in the list
  are pairwise different, the duplicates are the documents whose key is stored already.
\<close>

theorem bulk_insert_duplicates:
  assumes "docs \<noteq> []" and "\<not> key_given key"
    and "K = length (duplicates ukey (db_state w c) docs)"
  shows "bulk_insert (Some (ref_storage ukey)) c docs key w =
     (Inr (int (length docs) - int K),
      \<lparr>db_state = (db_state w) (c := db_state w c @ newly_written ukey (db_state w c) docs),
       logs = logs w
         @ (if K > 0
            then [Log DEBUG ''Skipped {duplicates} duplicates in {collection_name}''
                    [AInt (int K), AStr c]]
            else [])
         @ [Log INFO ''Inserted/Updated {inserted_count} documents in {collection_name}''
              [AInt (int (length docs) - int K), AStr c]]\<rparr>)
   \<and> length (newly_written ukey (db_state w c) docs) = length docs - K
   \<and> (distinct (map (\<lambda>d. map_of d ukey) (filter (carries_key ukey) docs)) \<longrightarrow>
        duplicates ukey (db_state w c) docs = filter (is_duplicate ukey (db_state w c)) docs)"
proof -
  let ?new = "newly_written ukey (db_state w c) docs"
  have len: "length ?new = length docs - K"
    using assms(3) length_newly_written [of ukey "db_state w c" docs] by simp
  have KN: "K \<le> length docs"
    using assms(3) length_newly_written [of ukey "db_state w c" docs] by simp
  have ie: "insert_each ukey docs (db_state w c) [] = (db_state w c @ ?new, ?new)"
    using insert_each_newly_written [of ukey "db_state w c" "db_state w c" docs "[]"] by simp
  have run: "bulk_insert (Some (ref_storage ukey)) c docs key w =
     (Inr (int (length docs) - int K),
      \<lparr>db_state = (db_state w) (c := db_state w c @ ?new),
       logs = logs w
         @ (if K > 0
            then [Log DEBUG ''Skipped {duplicates} duplicates in {collection_name}''
                    [AInt (int K), AStr c]]
            else [])
         @ [Log INFO ''Inserted/Updated {inserted_count} documents in {collection_name}''
              [AInt (int (length docs) - int K), AStr c]]\<rparr>)"
  proof (cases "K = 0")
    case True
    then show ?thesis
      using assms(1,2) ie len
      by (simp add: bulk_insert_def bulk_insert_try_def ref_storage_def ref_insert_many_def
          emit_def)
  next
    case False
    then have "length ?new \<noteq> length docs"
      using len assms(1) by (cases docs) auto
    then show ?thesis
      using assms(1,2) ie len KN False contains_duplicate [of c "length ?new"]
      by (simp add: bulk_insert_def bulk_insert_try_def ref_storage_def ref_insert_many_def
          emit_def on_bulk_error_def duplicate_key_error_def of_nat_diff)
  qed
  have dist: "distinct (map (\<lambda>d. map_of d ukey) (filter (carries_key ukey) docs)) \<longrightarrow>
        duplicates ukey (db_state w c) docs = filter (is_duplicate ukey (db_state w c)) docs"
    using duplicates_distinct [of ukey docs "[]" "db_state w c"] by simp
  show ?thesis
    using run len dist by (intro conjI)
qed

theorem bulk_insert_duplicates_witness:
  "[[(''_id'', PInt 1)], [(''lap_number'', PInt 7)], [(''_id'', PInt 2)], [(''lap_number'', PInt 7)],
    [(''_id'', PInt 3)]] \<noteq> []
   \<and> \<not> key_given None
   \<and> (2::nat) = length (duplicates ''_id'' [[(''_id'', PInt 3)], [(''_id'', PInt 1)]]
         [[(''_id'', PInt 1)], [(''lap_number'', PInt 7)], [(''_id'', PInt 2)],
          [(''lap_number'', PInt 7)], [(''_id'', PInt 3)]])
   \<and> distinct (map (\<lambda>d. map_of d ''_id'') (filter (carries_key ''_id'')
         [[(''_id'', PInt 1)], [(''lap_number'', PInt 7)], [(''_id'', PInt 2)],
          [(''lap_number'', PInt 7)], [(''_id'', PInt 3)]]))
   \<and> fst (bulk_insert (Some (ref_storage ''_id'')) ''laps''
        [[(''_id'', PInt 1)], [(''lap_number'', PInt 7)], [(''_id'', PInt 2)],
         [(''lap_number'', PInt 7)], [(''_id'', PInt 3)]] None
        \<lparr>db_state = (\<lambda>c. [[(''_id'', PInt 3)], [(''_id'', PInt 1)]]), logs = []\<rparr>) = Inr 3
   \<and> logs (snd (bulk_insert (Some (ref_storage ''_id'')) ''laps''
        [[(''_id'', PInt 1)], [(''lap_number'', PInt 7)], [(''_id'', PInt 2)],
         [(''lap_number'', PInt 7)], [(''_id'', PInt 3)]] None
        \<lparr>db_state = (\<lambda>c. [[(''_id'', PInt 3)], [(''_id'', PInt 1)]]), logs = []\<rparr>)) =
       [Log DEBUG ''Skipped {duplicates} duplicates in {collection_name}'' [AInt 2, AStr ''laps''],
        Log INFO ''Inserted/Updated {inserted_count} documents in {collection_name}''
          [AInt 3, AStr ''laps'']]
   \<and> db_state (snd (bulk_insert (Some (ref_storage ''_id'')) ''laps''
        [[(''_id'', PInt 1)], [(''lap_number'', PInt 7)], [(''_id'', PInt 2)],
         [(''lap_number'', PInt 7)], [(''_id'', PInt 3)]] None
        \<lparr>db_state = (\<lambda>c. [[(''_id'', PInt 3)], [(''_id'', PInt 1)]]), logs = []\<rparr>)) ''laps'' =
       [[(''_id'', PInt 3)], [(''_id'', PInt 1)], [(''lap_number'', PInt 7)], [(''_id'', PInt 2)],
        [(''lap_number'', PInt 7)]]
   \<and> duplicates ''_id'' [[(''_id'', PInt 3)], [(''_id'', PInt 1)]]
        [[(''_id'', PInt 1)], [(''lap_number'', PInt 7)], [(''_id'', PInt 2)],
         [(''lap_number'', PInt 7)], [(''_id'', PInt 3)]]
      = filter (is_duplicate ''_id'' [[(''_id'', PInt 3)], [(''_id'', PInt 1)]])
        [[(''_id'', PInt 1)], [(''lap_number'', PInt 7)], [(''_id'', PInt 2)],
         [(''lap_number'', PInt 7)], [(''_id'', PInt 3)]]"
  using bulk_insert_duplicates
    [of "[[(''_id'', PInt 1)], [(''lap_number'', PInt 7)], [(''_id'', PInt 2)],
          [(''lap_number'', PInt 7)], [(''_id'', PInt 3)]]"
      None 2 "''_id''" "\<lparr>db_state = (\<lambda>c. [[(''_id'', PInt 3)], [(''_id'', PInt 1)]]), logs = []\<rparr>"
      "''laps''"]
  by (simp add: key_given_def is_duplicate_def carries_key_def stored_key_def)

text \<open>
  As C1 is worded, \<open>K\<close> counts the records whose key is stored already. Two records with the
  same key, sent to an empty collection: no key is stored already, and the batch writer
  returns 1 of 2, the second record being refused for the first.
\<close>

theorem bulk_insert_duplicates_counterexample:
  "length [[(''_id'', PInt 1)], [(''_id'', PInt 1)]] = 2
   \<and> filter (is_duplicate ''_id'' []) [[(''_id'', PInt 1)], [(''_id'', PInt 1)]] = []
   \<and> fst (bulk_insert (Some (ref_storage ''_id'')) ''laps''
        [[(''_id'', PInt 1)], [(''_id'', PInt 1)]] None
        \<lparr>db_state = (\<lambda>c. []), logs = []\<rparr>) = Inr 1
   \<and> logs (snd (bulk_insert (Some (ref_storage ''_id'')) ''laps''
        [[(''_id'', PInt 1)], [(''_id'', PInt 1)]] None
        \<lparr>db_state = (\<lambda>c. []), logs = []\<rparr>)) =
       [Log DEBUG ''Skipped {duplicates} duplicates in {collection_name}'' [AInt 1, AStr ''laps''],
        Log INFO ''Inserted/Updated {inserted_count} documents in {collection_name}''
          [AInt 1, AStr ''laps'']]
   \<and> db_state (snd (bulk_insert (Some (ref_storage ''_id'')) ''laps''
        [[(''_id'', PInt 1)], [(''_id'', PInt 1)]] None
        \<lparr>db_state = (\<lambda>c. []), logs = []\<rparr>)) ''laps'' = [[(''_id'', PInt 1)]]"
  by (simp add: bulk_insert_def bulk_insert_try_def ref_storage_def ref_insert_many_def emit_def
      on_bulk_error_def duplicate_key_error_def key_given_def is_duplicate_def carries_key_def
      stored_key_def)

lemma update_same: "map_of d k = Some v \<Longrightarrow> AList.update k v d = d"
  by (induction d) (auto split: if_splits)

lemma apply_set_fixed:
  "\<forall>(k, v) \<in> set changes. map_of d k = Some v \<Longrightarrow> apply_set changes d = d"
  unfolding apply_set_def
  by (induction changes) (auto simp: update_same)

lemma map_of_apply_set_other:
  "k \<notin> fst ` set changes \<Longrightarrow> map_of (apply_set changes d) k = map_of d k"
  unfolding apply_set_def
  by (induction changes arbitrary: d) (auto simp: update_conv')

lemma map_of_apply_set:
  "distinct (map fst changes) \<Longrightarrow> (k, v) \<in> set changes \<Longrightarrow>
   map_of (apply_set changes d) k = Some v"
proof (induction changes arbitrary: d)
  case Nil
  then show ?case by simp
next
  case (Cons a changes)
  obtain k' v' where a: "a = (k', v')" by (cases a)
  show ?case
  proof (cases "(k, v) = a")
    case True
    then have "k \<notin> fst ` set changes"
      using Cons.prems(1) by (auto simp: a)
    then have "map_of (apply_set changes (AList.update k v d)) k = map_of (AList.update k v d) k"
      by (rule map_of_apply_set_other)
    then show ?thesis
      using True by (simp add: apply_set_def a update_conv')
  next
    case False
    then have "(k, v) \<in> set changes"
      using Cons.prems(2) by simp
    then have "map_of (apply_set changes (AList.update k' v' d)) k = Some v"
      using Cons.IH Cons.prems(1) by simp
    then show ?thesis
      by (simp add: apply_set_def a)
  qed
qed

lemma apply_set_idem:
  "distinct (map fst changes) \<Longrightarrow> apply_set changes (apply_set changes d) = apply_set changes d"
  by (rule apply_set_fixed) (auto simp: map_of_apply_set)

lemma update_first_None:
  "update_first flt changes ds = None \<longleftrightarrow> filter (matches flt) ds = []"
  by (induction ds) (auto split: option.splits)

lemma update_first_count:
  assumes "\<And>d. matches flt (apply_set changes d)"
  shows "update_first flt changes ds = Some (ds', ch) \<Longrightarrow>
     length (filter (matches flt) ds') = length (filter (matches flt) ds)
     \<and> filter (matches flt) ds \<noteq> []"
  using assms by (induction ds arbitrary: ds') (auto split: if_splits option.splits)

lemma update_first_fixed:
  assumes "\<And>d. apply_set changes (apply_set changes d) = apply_set changes d"
  shows "update_first flt changes ds = Some (ds', ch) \<Longrightarrow>
     length (filter (matches flt) ds) \<le> 1 \<Longrightarrow>
     \<forall>d \<in> set ds'. matches flt d \<longrightarrow> apply_set changes d = d"
proof (induction ds arbitrary: ds')
  case Nil
  then show ?case by simp
next
  case (Cons d ds)
  show ?case
  proof (cases "matches flt d")
    case True
    then have "filter (matches flt) ds = []"
      using Cons.prems(2) by simp
    then have "\<forall>x \<in> set ds. \<not> matches flt x"
      by (simp add: filter_empty_conv)
    then show ?thesis
      using True Cons.prems(1) assms by auto
  next
    case False
    then show ?thesis
      using Cons by (auto split: option.splits)
  qed
qed

lemma update_first_unchanged:
  "\<forall>d \<in> set ds. matches flt d \<longrightarrow> apply_set changes d = d \<Longrightarrow>
   filter (matches flt) ds \<noteq> [] \<Longrightarrow>
   update_first flt changes ds = Some (ds, False)"
  by (induction ds) (auto split: if_splits)


lemma matches_single [simp]: "matches [(k, v)] d \<longleftrightarrow> map_of d k = Some v"
  by (simp add: matches_def)

lemma upsert_one_ref:
  assumes "map_of doc k = Some v" and "k \<noteq> []"
  shows "bulk_insert (Some (ref_storage ukey)) c [doc] (Some k) w =
     (case update_first [(k, v)] doc (db_state w c) of
        None \<Rightarrow>
          (Inr 1,
           \<lparr>db_state = (db_state w)(c := db_state w c @ [apply_set doc [(k, v)]]),
            logs = logs w @
              [Log INFO ''Inserted/Updated {inserted_count} documents in {collection_name}''
                 [AInt 1, AStr c]]\<rparr>)
      | Some (ds', ch) \<Rightarrow>
          (Inr (if ch then 1 else 0),
           \<lparr>db_state = (db_state w)(c := ds'),
            logs = logs w @
              [Log INFO ''Inserted/Updated {inserted_count} documents in {collection_name}''
                 [AInt (if ch then 1 else 0), AStr c]]\<rparr>))"
  using assms
  by (simp add: bulk_insert_def bulk_insert_try_def key_given_def ref_storage_def
      ref_bulk_write_def emit_def split: option.splits)

lemma upsert_sum:
  assumes "docs \<noteq> []" and "k \<noteq> []" and "build_operations k docs [] = Inr ops"
    and "bulk_write col c ops (db_state w) = (Inr res, st')"
  shows "fst (bulk_insert (Some col) c docs (Some k) w) = Inr (upserted_count res + modified_count res)"
  using assms by (simp add: bulk_insert_def bulk_insert_try_def key_given_def)

text \<open>
  Claim C6. Against the reference storage, where at most one stored document carries the
  key value of the record (the unique index on \<open>session_key\<close>), writing the record twice
  by upsert on that key leaves exactly one document with the key after the first call and
  after the second, the second call changes nothing and reports \<open>0\<close>, and the first
  reports \<open>1\<close> when the key was new. On every storage, a successful upsert call reports
  \<open>upserted_count + modified_count\<close>.
\<close>

theorem upsert_by_key_idempotent:
  assumes dist: "distinct (map fst doc)" and key: "map_of doc k = Some v" and k: "k \<noteq> []"
    and uniq: "length (documents_with k v (db_state w c)) \<le> 1"
    and one: "bulk_insert (Some (ref_storage ukey)) c [doc] (Some k) w = (r1, w1)"
    and two: "bulk_insert (Some (ref_storage ukey)) c [doc] (Some k) w1 = (r2, w2)"
  shows "length (documents_with k v (db_state w1 c)) = 1
     \<and> length (documents_with k v (db_state w2 c)) = 1
     \<and> db_state w2 = db_state w1
     \<and> r2 = Inr 0 \<and> (documents_with k v (db_state w c) = [] \<longrightarrow> r1 = Inr 1)
     \<and> (r1 = Inr 0 \<or> r1 = Inr 1)
     \<and> (docs \<noteq> [] \<and> k' \<noteq> [] \<and> build_operations k' docs [] = Inr ops
          \<and> bulk_write col c' ops (db_state w') = (Inr res, st')
        \<longrightarrow> fst (bulk_insert (Some col) c' docs (Some k') w')
              = Inr (upserted_count res + modified_count res))"
proof -
  let ?flt = "[(k, v)]"
  have mem: "(k, v) \<in> set doc"
    using key by (rule map_of_SomeD)
  have keeps: "\<And>d. matches ?flt (apply_set doc d)"
    using dist mem by (simp add: map_of_apply_set)
  have idem: "\<And>d. apply_set doc (apply_set doc d) = apply_set doc d"
    using dist by (rule apply_set_idem)
  have dw: "documents_with k v ds = filter (matches ?flt) ds" for ds
    by (induction ds) (simp_all add: documents_with_def)
  have first: "length (documents_with k v (db_state w1 c)) = 1
      \<and> (\<forall>d \<in> set (db_state w1 c). matches ?flt d \<longrightarrow> apply_set doc d = d)
      \<and> (documents_with k v (db_state w c) = [] \<longrightarrow> r1 = Inr 1)
      \<and> (r1 = Inr 0 \<or> r1 = Inr 1)"
  proof (cases "update_first ?flt doc (db_state w c)")
    case None
    then have none: "filter (matches ?flt) (db_state w c) = []"
      by (simp only: update_first_None)
    then have "\<forall>d \<in> set (db_state w c). \<not> matches ?flt d"
      by (simp only: filter_empty_conv)
    moreover have "db_state w1 c = db_state w c @ [apply_set doc ?flt]" and "r1 = Inr 1"
      using one None upsert_one_ref [OF key k, of ukey c w] by auto
    ultimately show ?thesis
      using none keeps idem by (auto simp: dw simp del: matches_single)
  next
    case (Some p)
    obtain ds' ch where p: "p = (ds', ch)" by (cases p)
    have w1: "db_state w1 c = ds'" and r1: "r1 = Inr (if ch then 1 else 0)"
      using one Some p upsert_one_ref [OF key k, of ukey c w] by auto
    have cnt: "length (filter (matches ?flt) ds') = length (filter (matches ?flt) (db_state w c))"
       and ne: "filter (matches ?flt) (db_state w c) \<noteq> []"
      using update_first_count [where flt = ?flt and changes = doc and ds = "db_state w c"
          and ds' = ds' and ch = ch] keeps Some p by auto
    have "length (filter (matches ?flt) (db_state w c)) = 1"
      using uniq ne by (cases "filter (matches ?flt) (db_state w c)") (auto simp: dw)
    moreover have "\<forall>d \<in> set ds'. matches ?flt d \<longrightarrow> apply_set doc d = d"
      using update_first_fixed [where flt = ?flt and changes = doc and ds = "db_state w c"
          and ds' = ds' and ch = ch] idem Some p uniq
      by (simp add: dw del: matches_single)
    ultimately show ?thesis
      using w1 r1 cnt ne by (auto simp: dw simp del: matches_single)
  qed
  then have ne1: "filter (matches ?flt) (db_state w1 c) \<noteq> []"
    by (auto simp: dw simp del: matches_single)
  have "update_first ?flt doc (db_state w1 c) = Some (db_state w1 c, False)"
    using first ne1 by (intro update_first_unchanged) auto
  then have "r2 = Inr 0" and "db_state w2 = db_state w1"
    using two upsert_one_ref [OF key k, of ukey c w1] by auto
  then show ?thesis
    using first upsert_sum [of docs k' ops col c' w' res st'] by simp
qed

theorem upsert_by_key_idempotent_witness:
  "distinct (map fst [(''session_key'', PInt 9158), (''location'', PStr ''Monza'')])
   \<and> map_of [(''session_key'', PInt 9158), (''location'', PStr ''Monza'')] ''session_key''
        = Some (PInt 9158)
   \<and> ''session_key'' \<noteq> []
   \<and> length (documents_with ''session_key'' (PInt 9158) []) \<le> 1
   \<and> (let doc = [(''session_key'', PInt 9158), (''location'', PStr ''Monza'')];
           (r1, w1) = bulk_insert (Some (ref_storage ''_id'')) ''sessions'' [doc]
                        (Some ''session_key'') \<lparr>db_state = (\<lambda>c. []), logs = []\<rparr>;
           (r2, w2) = bulk_insert (Some (ref_storage ''_id'')) ''sessions'' [doc]
                        (Some ''session_key'') w1
        in r1 = Inr 1 \<and> r2 = Inr 0
           \<and> db_state w1 ''sessions'' = [doc] \<and> db_state w2 ''sessions'' = [doc]
           \<and> length (documents_with ''session_key'' (PInt 9158) (db_state w2 ''sessions'')) = 1)"
  using upsert_by_key_idempotent
    [where doc = "[(''session_key'', PInt 9158), (''location'', PStr ''Monza'')]"
       and k = "''session_key''" and v = "PInt 9158" and c = "''sessions''"
       and ukey = "''_id''" and w = "\<lparr>db_state = (\<lambda>c. []), logs = []\<rparr>"
       and ?r1.0 = "Inr 1"
       and ?w1.0 = "\<lparr>db_state = (\<lambda>c. [])(''sessions'' :=
                    [[(''session_key'', PInt 9158), (''location'', PStr ''Monza'')]]),
                 logs = [Log INFO ''Inserted/Updated {inserted_count} documents in {collection_name}''
                           [AInt 1, AStr ''sessions'']]\<rparr>"
       and ?r2.0 = "Inr 0"
       and ?w2.0 = "\<lparr>db_state = (\<lambda>c. [])(''sessions'' :=
                    [[(''session_key'', PInt 9158), (''location'', PStr ''Monza'')]]),
                 logs = [Log INFO ''Inserted/Updated {inserted_count} documents in {collection_name}''
                           [AInt 1, AStr ''sessions''],
                         Log INFO ''Inserted/Updated {inserted_count} documents in {collection_name}''
                           [AInt 0, AStr ''sessions'']]\<rparr>"]
  by (simp add: bulk_insert_def bulk_insert_try_def key_given_def ref_storage_def
      ref_bulk_write_def emit_def apply_set_def documents_with_def)

section \<open>Properties of the record schema\<close>

lemma validate_gap_str:
  "validate_gap (PStr s) = Inr (case float_of_str s of Some f \<Rightarrow> PFloat f | None \<Rightarrow> PStr s)"
  by (simp add: validate_gap_def parse_gap_values_def py_float_def gap_field_type_def
      split: option.splits)

lemma plus_one_lap: "float_of_str ''+1 LAP'' = None"
  by (simp add: float_of_str_def take_sign_def strip_def is_space_def parse_number_def
      digitpart_def is_digit_def lower_def digit_val_def parse_exponent_def)

lemma one_point: "float_of_str ''1.234'' = Some (Finite (1234 / 1000))"
  by (simp add: float_of_str_def take_sign_def strip_def is_space_def parse_number_def
      digitpart_def is_digit_def lower_def digit_val_def parse_exponent_def digits_value_def
      decimal_value_def round_float_def float_overflow_def)

lemma float_white_space:
  "float_of_str (CHR 0x1F # ''1.5'') = None"
  "float_of_str (CHR 0xA0 # ''1.5'' @ [CHR 0x0A]) = Some (Finite (15 / 10))"
  by (simp_all add: float_of_str_def take_sign_def strip_def is_space_def parse_number_def
      digitpart_def is_digit_def lower_def digit_val_def parse_exponent_def digits_value_def
      decimal_value_def round_float_def float_overflow_def)

lemma py_repr_examples:
  "py_repr ''session_key'' = quote ''session_key''"
  "py_repr [CHR ''a'', CHR 0x27, CHR ''b''] = [CHR 0x22, CHR ''a'', CHR 0x27, CHR ''b'', CHR 0x22]"
  "py_repr [CHR 0x5C, CHR 0x01] = CHR 0x27 # [CHR 0x5C, CHR 0x5C] @ CHR 0x5C # ''x01'' @ [CHR 0x27]"
  by (simp_all add: py_repr_def repr_char_def printable_def quote_def hex_digit_def Let_def)

text \<open>
  Claim C3, amended. Validation of \<open>gap_to_leader\<close> and \<open>interval\<close> returns on \<open>None\<close>
  (kept), on every string (the float it denotes when \<open>float()\<close> accepts it, the string
  itself otherwise: \<open>"+1 LAP"\<close> is kept and \<open>"1.234"\<close> becomes the float 1.234), on
  every float and boolean, and on every integer inside the float range. A list or a dict is
  handed on unchanged by the validator and then refused by the declared type.
\<close>

theorem gap_values_validation:
  "validate_gap PNone = Inr PNone
   \<and> validate_gap (PStr s)
       = Inr (case float_of_str s of Some f \<Rightarrow> PFloat f | None \<Rightarrow> PStr s)
   \<and> validate_gap (PStr ''+1 LAP'') = Inr (PStr ''+1 LAP'')
   \<and> validate_gap (PStr ''1.234'') = Inr (PFloat (Finite (1234 / 1000)))
   \<and> validate_gap (PFloat f) = Inr (PFloat f)
   \<and> validate_gap (PBool b) = Inr (PFloat (Finite (if b then 1 else 0)))
   \<and> (\<bar>n\<bar> < float_overflow \<longrightarrow> validate_gap (PInt n) = Inr (PFloat (Finite (of_int n))))
   \<and> (v = PList xs \<or> v = PDict kvs \<longrightarrow>
        parse_gap_values v = Inr v
        \<and> validate_gap v = Inl (PyExc ValidationError
                      ''Input should be a valid number or a valid string'' NoDetails))"
proof (intro conjI impI)
  show "validate_gap (PStr s)
       = Inr (case float_of_str s of Some f \<Rightarrow> PFloat f | None \<Rightarrow> PStr s)"
    by (rule validate_gap_str)
  show "validate_gap (PStr ''+1 LAP'') = Inr (PStr ''+1 LAP'')"
    by (simp add: validate_gap_str plus_one_lap)
  show "validate_gap (PStr ''1.234'') = Inr (PFloat (Finite (1234 / 1000)))"
    by (simp add: validate_gap_str one_point)
qed (auto simp: validate_gap_def parse_gap_values_def py_float_def gap_field_type_def)

theorem gap_values_validation_witness:
  "\<bar>0\<bar> < float_overflow \<and> validate_gap (PInt 0) = Inr (PFloat (Finite 0))
   \<and> validate_gap (PList [PInt 1]) = Inl (PyExc ValidationError
         ''Input should be a valid number or a valid string'' NoDetails)
   \<and> validate_gap (PStr ''+2 LAPS'') = Inr (PStr ''+2 LAPS'')"
proof -
  have fo: "\<bar>0\<bar> < float_overflow" by (simp add: float_overflow_def)
  have laps: "float_of_str ''+2 LAPS'' = None"
    by (simp add: float_of_str_def take_sign_def strip_def is_space_def parse_number_def
        digitpart_def is_digit_def lower_def digit_val_def parse_exponent_def)
  show ?thesis
    using fo laps gap_values_validation [where n = 0 and v = "PList [PInt 1]" and xs = "[PInt 1]"
        and s = "''+2 LAPS''"]
    by simp
qed

text \<open>
  Claim C3 as stated, for every input value, fails: an empty list is refused by the declared
  type of the field, and the integer \<open>10^400\<close> makes \<open>float()\<close> raise \<open>OverflowError\<close>,
  which the validator does not catch.
\<close>

theorem gap_values_counterexample:
  "validate_gap (PList []) = Inl (PyExc ValidationError
       ''Input should be a valid number or a valid string'' NoDetails)
   \<and> validate_gap (PInt (10 ^ 400))
       = Inl (PyExc OverflowError ''int too large to convert to float'' NoDetails)"
  by (simp add: validate_gap_def parse_gap_values_def py_float_def gap_field_type_def
      float_overflow_def)

section \<open>Properties of the entity ingesters\<close>

lemma bulk_insert_recording:
  "docs \<noteq> [] \<Longrightarrow>
   bulk_insert (Some recording_storage) c docs None w =
     (Inr (int (length docs)),
      \<lparr>db_state = db_state w @ [(c, docs)],
       logs = logs w @
         [Log INFO ''Inserted/Updated {inserted_count} documents in {collection_name}''
            [AInt (int (length docs)), AStr c]]\<rparr>)"
  by (simp add: bulk_insert_def bulk_insert_try_def key_given_def recording_storage_def emit_def)

lemma db_state_emit [simp]: "db_state (emit es w) = db_state w"
  by (simp add: emit_def)

lemma db_state_lap_error [simp]: "db_state (lap_error item e laps w) = db_state w"
  by (simp add: lap_error_def)

lemma laps_loop_recording:
  "laps_loop sch (Some recording_storage) data seen laps w = (seen', laps', w') \<Longrightarrow>
   db_state w' = db_state w
       @ map (Pair ''laps'')
           (fst (chunks BATCH_SIZE laps (valid_dumps (fromisoformat sch) ''date_start'' (Lap sch) data)))
   \<and> laps' = snd (chunks BATCH_SIZE laps (valid_dumps (fromisoformat sch) ''date_start'' (Lap sch) data))"
proof (induction data arbitrary: seen laps w)
  case Nil
  then show ?case by (simp add: valid_dumps_def List.map_filter_def)
next
  case (Cons item rest)
  show ?case
  proof (cases "coerce_date (fromisoformat sch) ''date_start'' item")
    case (Inl e)
    then show ?thesis
      using Cons.prems Cons.IH [of "seen @ [item]" laps "lap_error item e laps w"]
      by (simp add: valid_dumps_def dump_of_def)
  next
    case (Inr item')
    note co = Inr
    show ?thesis
    proof (cases "Lap sch item'")
      case (Inl e)
      then show ?thesis
        using co Cons.prems Cons.IH [of "seen @ [item']" laps "lap_error item' e laps w"]
        by (simp add: valid_dumps_def dump_of_def)
    next
      case (Inr lap)
      show ?thesis
      proof (cases "length (laps @ [lap]) \<ge> BATCH_SIZE")
        case True
        then show ?thesis
          using co Inr Cons.prems bulk_insert_recording [of "laps @ [lap]" "''laps''" w]
            Cons.IH [of "seen @ [item']" "[]"
              "emit [Log DEBUG ''  Processed batch of {config.BATCH_SIZE} laps''
                                 [AInt (int BATCH_SIZE)]]
                 \<lparr>db_state = db_state w @ [(''laps'', laps @ [lap])],
                  logs = logs w @
                    [Log INFO ''Inserted/Updated {inserted_count} documents in {collection_name}''
                       [AInt (int (length (laps @ [lap]))), AStr ''laps'']]\<rparr>"]
          by (simp add: valid_dumps_def dump_of_def)
      next
        case False
        then show ?thesis
          using co Inr Cons.prems Cons.IH [of "seen @ [item']" "laps @ [lap]" w]
          by (simp add: valid_dumps_def dump_of_def)
      qed
    qed
  qed
qed

lemma chunks_sizes:
  "0 < n \<Longrightarrow> length buf < n \<Longrightarrow>
   map length (fst (chunks n buf xs)) = replicate ((length buf + length xs) div n) n
   \<and> length (snd (chunks n buf xs)) = (length buf + length xs) mod n"
proof (induction xs arbitrary: buf)
  case Nil
  then show ?case by simp
next
  case (Cons x xs)
  show ?case
  proof (cases "length (buf @ [x]) \<ge> n")
    case True
    then have eq: "length buf + 1 = n"
      using Cons.prems by simp
    have e: "length buf + length (x # xs) = n + length xs"
      using eq by simp
    have d: "(n + length xs) div n = Suc (length xs div n)"
      and m: "(n + length xs) mod n = length xs mod n"
      using Cons.prems(1) by simp_all
    have hd: "length (buf @ [x]) = n"
      using eq by simp
    show ?thesis
      unfolding e d m
      using True Cons.prems Cons.IH [of "[]"] hd by (simp del: length_append)
  next
    case False
    then show ?thesis
      using Cons.prems Cons.IH [of "buf @ [x]"] by simp
  qed
qed


lemma flush_returns: "\<exists>n. fst (flush db c rs w) = Inr n"
  using bulk_insert_returns [of db c rs None w] by (simp add: flush_def)

lemma flush_cases:
  obtains n w' where "flush db c rs w = (Inr n, w')"
  using flush_returns [of db c rs w] by (cases "flush db c rs w") auto

lemma bulk_insert_cases:
  obtains n w' where "bulk_insert db c docs key w = (Inr n, w')"
  using bulk_insert_returns [of db c docs key w] by (cases "bulk_insert db c docs key w") auto

lemma coerce_date_again:
  "coerce_date fromiso fld item = Inr item' \<Longrightarrow> coerce_date fromiso fld item' = Inr item'"
  by (auto simp: coerce_date_def update_conv' split: option.splits pyval.splits sum.splits)

lemma dump_of_coerced:
  "dump_of fromiso fld model (coerced fromiso fld item) = dump_of fromiso fld model item"
  by (cases "coerce_date fromiso fld item")
     (simp_all add: dump_of_def coerced_def coerce_date_again)

lemma validate_lap_item_dump:
  "validate_lap_item sch item \<longleftrightarrow> dump_of (fromisoformat sch) ''date_start'' (Lap sch) item \<noteq> None"
  by (simp add: validate_lap_item_def dump_of_def split: sum.splits)

lemma length_valid_dumps:
  "length (valid_dumps fromiso fld model data)
     = length (filter (\<lambda>item. dump_of fromiso fld model item \<noteq> None) data)"
  by (induction data) (auto simp: valid_dumps_def split: option.splits)

lemma count_coerced:
  "length (filter (\<lambda>item. dump_of fromiso fld model item \<noteq> None) (map (coerced fromiso fld) data))
     = length (valid_dumps fromiso fld model data)"
  by (simp add: length_valid_dumps filter_map o_def dump_of_coerced)

lemma laps_loop_seen:
  "fst (laps_loop sch db data seen laps w)
     = seen @ map (coerced (fromisoformat sch) ''date_start'') data"
proof (induction data arbitrary: seen laps w)
  case Nil
  then show ?case by simp
next
  case (Cons item rest)
  show ?case
  proof (cases "coerce_date (fromisoformat sch) ''date_start'' item")
    case (Inl e)
    then show ?thesis
      using Cons.IH by (simp add: coerced_def)
  next
    case (Inr item')
    then show ?thesis
      using Cons.IH
      by (cases "bulk_insert db ''laps'' (laps @ [the_elem {d. Lap sch item' = Inr d}]) None w")
         (auto simp: coerced_def split: sum.splits prod.splits)
  qed
qed

lemma ingest_laps_count:
  assumes "status response = 200"
  shows "fst (ingest_laps sch db response w)
     = Inr (int (length (valid_dumps (fromisoformat sch) ''date_start'' (Lap sch) (body response))))"
proof -
  obtain data laps w1 where loop: "laps_loop sch db (body response) [] [] w = (data, laps, w1)"
    by (cases "laps_loop sch db (body response) [] [] w") auto
  have data: "data = map (coerced (fromisoformat sch) ''date_start'') (body response)"
    using laps_loop_seen [of sch db "body response" "[]" "[]" w] loop by simp
  obtain n w2 where f1: "flush db ''laps'' laps w1 = (Inr n, w2)"
    by (rule flush_cases)
  obtain m w3 where f2: "flush db ''laps'' laps w2 = (Inr m, w3)"
    by (rule flush_cases)
  have "filter (validate_lap_item sch) data
      = filter (\<lambda>item. dump_of (fromisoformat sch) ''date_start'' (Lap sch) item \<noteq> None) data"
    by (rule filter_cong) (simp_all add: validate_lap_item_dump)
  then have "length (filter (validate_lap_item sch) data)
      = length (valid_dumps (fromisoformat sch) ''date_start'' (Lap sch) (body response))"
    unfolding data by (simp only: count_coerced)
  then show ?thesis
    using assms loop f1 f2 by (simp add: ingest_laps_def Let_def)
qed

lemma ingest_laps_recording:
  assumes "status response = 200"
    and "chunks BATCH_SIZE [] (valid_dumps (fromisoformat sch) ''date_start'' (Lap sch) (body response))
           = (cs, r)"
  shows "db_state (snd (ingest_laps sch (Some recording_storage) response w))
     = db_state w @ map (Pair ''laps'') cs @ (if r = [] then [] else [(''laps'', r), (''laps'', r)])"
proof -
  obtain data laps w1 where
    loop: "laps_loop sch (Some recording_storage) (body response) [] [] w = (data, laps, w1)"
    by (cases "laps_loop sch (Some recording_storage) (body response) [] [] w") auto
  have w1: "db_state w1 = db_state w @ map (Pair ''laps'') cs" and laps: "laps = r"
    using laps_loop_recording [OF loop] assms(2) by simp_all
  show ?thesis
    using assms(1) loop w1 laps
    by (simp add: ingest_laps_def flush_def bulk_insert_recording Let_def)
qed

lemma sample_models:
  "Lap sample_schema [(''session_key'', PInt 9158), (''driver_number'', PInt 44), (''lap_number'', PInt 1),
      (''team'', PStr ''Mercedes'')]
     = Inr [(''session_key'', PInt 9158), (''meeting_key'', PNone), (''driver_number'', PInt 44),
            (''date_start'', PNone), (''lap_number'', PInt 1), (''lap_duration'', PNone),
            (''is_pit_out_lap'', PNone), (''stint_number'', PNone), (''duration_sector_1'', PNone),
            (''duration_sector_2'', PNone), (''duration_sector_3'', PNone), (''i1_speed'', PNone),
            (''i2_speed'', PNone), (''st_speed'', PNone), (''segments_sector_1'', PNone),
            (''segments_sector_2'', PNone), (''segments_sector_3'', PNone),
            (''sectors_sector_1'', PNone), (''sectors_sector_2'', PNone),
            (''sectors_sector_3'', PNone)]"
  "Session sample_schema (sample_session 9662 ''2024-12-08T13:00:00+00:00'')
     = Inr (AList.update ''date_end'' (PDatetime (Datetime 1733670000))
             (AList.update ''date_start'' (PDatetime (Datetime 1733662800))
               (sample_session 9662 ''2024-12-08T13:00:00+00:00'')))"
  "Session sample_schema [(''session_key'', PInt 9158), (''meeting_key'', PInt 1244), (''year'', PInt 2024)]
     = Inl validation_error"
  "CarData sample_schema [(''session_key'', PInt 9158), (''driver_number'', PInt 44), (''speed'', PInt 212)]
     = Inl validation_error"
  "Position sample_schema [(''session_key'', PInt 9158), (''driver_number'', PInt 44), (''position'', PInt 3)]
     = Inl validation_error"
  "Interval sample_schema [(''session_key'', PInt 9158), (''driver_number'', PInt 44)]
     = Inl validation_error"
  by (simp_all add: sample_schema_def base_model_def validate_field_def validation_error_def
      lap_fields_def session_fields_def car_data_fields_def position_fields_def
      interval_fields_def driver_fields_def sample_session_def sample_fromisoformat_def
      sample_instants_def)

lemma dump_of_sample_lap:
  "dump_of (fromisoformat sample_schema) ''date_start'' (Lap sample_schema) sample_lap = Some sample_lap"
  by (simp add: dump_of_def coerce_date_def sample_schema_def base_model_def validate_field_def
      lap_fields_def sample_lap_def int_or_none_def)

lemma valid_dumps_replicate:
  "dump_of fromiso fld model item = Some d \<Longrightarrow>
   valid_dumps fromiso fld model (replicate n item) = replicate n d"
  by (induction n) (simp_all add: valid_dumps_def)

lemma chunks_total:
  "concat (fst (chunks n buf xs)) @ snd (chunks n buf xs) = buf @ xs"
  by (induction xs arbitrary: buf) auto

text \<open>
  Claim C4, the run it describes. With the batch size 5000, 12001 lap records that all pass
  validation reach the storage in four requests of 5000, 5000, 2001 and 2001 documents:
  lines 132-133 and 136-137 both write the remainder.
\<close>

theorem ingest_laps_12001:
  "map (\<lambda>(c, ds). (c, length ds))
     (db_state (snd (ingest_laps sample_schema (Some recording_storage)
        \<lparr>status = 200, body = replicate 12001 sample_lap\<rparr> \<lparr>db_state = [], logs = []\<rparr>)))
   = [(''laps'', 5000), (''laps'', 5000), (''laps'', 2001), (''laps'', 2001)]"
proof -
  let ?xs = "replicate 12001 sample_lap"
  obtain cs r where ch: "chunks BATCH_SIZE [] ?xs = (cs, r)"
    by (cases "chunks BATCH_SIZE [] ?xs") auto
  have sizes: "map length cs = replicate (12001 div 5000) 5000" and rem: "length r = 12001 mod 5000"
    using chunks_sizes [of BATCH_SIZE "[]" ?xs] ch by (simp_all add: BATCH_SIZE_def)
  have cs: "map length cs = [5000, 5000]"
    using sizes by (simp add: numeral_2_eq_2)
  have r: "length r = 2001" and rne: "r \<noteq> []"
    using rem by auto
  have vd: "valid_dumps (fromisoformat sample_schema) ''date_start'' (Lap sample_schema) ?xs = ?xs"
    by (rule valid_dumps_replicate) (rule dump_of_sample_lap)
  have "db_state (snd (ingest_laps sample_schema (Some recording_storage)
        \<lparr>status = 200, body = ?xs\<rparr> \<lparr>db_state = [], logs = []\<rparr>))
     = map (Pair ''laps'') cs @ [(''laps'', r), (''laps'', r)]"
    using ingest_laps_recording [of "\<lparr>status = 200, body = ?xs\<rparr>" sample_schema cs r
        "\<lparr>db_state = [], logs = []\<rparr>"] ch vd rne
    by simp
  moreover have "map (\<lambda>(c, ds). (c, length ds)) (map (Pair ''laps'') cs)
      = map (Pair ''laps'') (map length cs)"
    by (simp add: o_def)
  ultimately show ?thesis
    using cs r by simp
qed

text \<open>
  Claim C8, two runs. Five records that all fail validation are each logged in full and no
  summary is written; after three valid records, each of two failures writes the summary.
  The handler compares the length of the buffer of valid records with 3, not the number of
  failures.
\<close>

theorem ingest_laps_invalid_items:
  "logs (snd (ingest_laps sample_schema (Some recording_storage)
       \<lparr>status = 200, body = [[], [], [], [], []]\<rparr> \<lparr>db_state = [], logs = []\<rparr>))
   = replicate 5
       (Log WARNING
          ''Error processing lap data for driver {item.get(driver_number, unknown)}: {str(e)[:100]}...''
          [AVal (PStr ''unknown''), AStr ''1 validation error: Field required''])
     @ [Log INFO ''   Processed {successful_count}/{total_count} laps successfully'' [AInt 0, AInt 5]]
   \<and> logs (snd (ingest_laps sample_schema (Some recording_storage)
       \<lparr>status = 200, body = [sample_lap, sample_lap, sample_lap, [], []]\<rparr>
       \<lparr>db_state = [], logs = []\<rparr>))
   = [Log WARNING ''More lap validation errors found... (suppressing further messages)'' [],
      Log WARNING ''More lap validation errors found... (suppressing further messages)'' [],
      Log INFO ''Inserted/Updated {inserted_count} documents in {collection_name}''
        [AInt 3, AStr ''laps''],
      Log INFO ''Inserted/Updated {inserted_count} documents in {collection_name}''
        [AInt 3, AStr ''laps''],
      Log INFO ''   Processed {successful_count}/{total_count} laps successfully'' [AInt 3, AInt 5]]"
  by (simp add: ingest_laps_def sample_schema_def sample_lap_def base_model_def validate_field_def
      lap_fields_def int_or_none_def validation_error_def coerce_date_def
      lap_error_def dict_get_def emit_def flush_def validate_lap_item_def BATCH_SIZE_def
      bulk_insert_recording numeral_eq_Suc)

subsection \<open>Positions\<close>

lemma db_state_position_error [simp]: "db_state (position_error e w) = db_state w"
  by (simp add: position_error_def)

lemma positions_loop_recording:
  "positions_loop sch (Some recording_storage) data positions w = (positions', w') \<Longrightarrow>
   db_state w' = db_state w
       @ map (Pair ''positions'')
           (fst (chunks BATCH_SIZE positions (valid_dumps (fromisoformat sch) ''date'' (Position sch) data)))
   \<and> positions' = snd (chunks BATCH_SIZE positions (valid_dumps (fromisoformat sch) ''date'' (Position sch) data))"
proof (induction data arbitrary: positions w)
  case Nil
  then show ?case by (simp add: valid_dumps_def)
next
  case (Cons item rest)
  show ?case
  proof (cases "coerce_date (fromisoformat sch) ''date'' item")
    case (Inl e)
    then show ?thesis
      using Cons.prems Cons.IH [of positions "position_error e w"]
      by (simp add: valid_dumps_def dump_of_def)
  next
    case (Inr item')
    note co = Inr
    show ?thesis
    proof (cases "Position sch item'")
      case (Inl e)
      then show ?thesis
        using co Cons.prems Cons.IH [of positions "position_error e w"]
        by (simp add: valid_dumps_def dump_of_def)
    next
      case (Inr position)
      show ?thesis
      proof (cases "length (positions @ [position]) \<ge> BATCH_SIZE")
        case True
        then show ?thesis
          using co Inr Cons.prems bulk_insert_recording [of "positions @ [position]" "''positions''" w]
            Cons.IH [of "[]"
              "emit [Log DEBUG '' Processed batch of {config.BATCH_SIZE} positions''
                                 [AInt (int BATCH_SIZE)]]
                 \<lparr>db_state = db_state w @ [(''positions'', positions @ [position])],
                  logs = logs w @
                    [Log INFO ''Inserted/Updated {inserted_count} documents in {collection_name}''
                       [AInt (int (length (positions @ [position]))), AStr ''positions'']]\<rparr>"]
          by (simp add: valid_dumps_def dump_of_def)
      next
        case False
        then show ?thesis
          using co Inr Cons.prems Cons.IH [of "positions @ [position]" w]
          by (simp add: valid_dumps_def dump_of_def)
      qed
    qed
  qed
qed

lemma ingest_positions_recording:
  assumes "status response = 200"
    and "chunks BATCH_SIZE [] (valid_dumps (fromisoformat sch) ''date'' (Position sch) (body response))
           = (cs, r)"
  shows "db_state (snd (ingest_positions sch (Some recording_storage) response w))
     = db_state w @ map (Pair ''positions'') cs @ (if r = [] then [] else [(''positions'', r)])"
proof -
  obtain positions w1 where
    loop: "positions_loop sch (Some recording_storage) (body response) [] w = (positions, w1)"
    by (cases "positions_loop sch (Some recording_storage) (body response) [] w") auto
  have w1: "db_state w1 = db_state w @ map (Pair ''positions'') cs" and ps: "positions = r"
    using positions_loop_recording [OF loop] assms(2) by simp_all
  show ?thesis
    using assms(1) loop w1 ps
    by (simp add: ingest_positions_def flush_def bulk_insert_recording Let_def)
qed

lemma ingest_positions_count:
  assumes "status response = 200"
  shows "fst (ingest_positions sch db response w) = Inr (int (length (body response)))"
proof -
  obtain positions w1 where loop: "positions_loop sch db (body response) [] w = (positions, w1)"
    by (cases "positions_loop sch db (body response) [] w") auto
  obtain n w2 where f1: "flush db ''positions'' positions w1 = (Inr n, w2)"
    by (rule flush_cases)
  show ?thesis
    using assms loop f1 by (simp add: ingest_positions_def Let_def)
qed

subsection \<open>Drivers\<close>

lemma drivers_loop_dumps:
  "drivers_loop sch data drivers w = (drivers', w') \<Longrightarrow>
   drivers' = drivers @ driver_dumps sch data \<and> db_state w' = db_state w"
proof (induction data arbitrary: drivers w)
  case Nil
  then show ?case by (simp add: driver_dumps_def)
next
  case (Cons item rest)
  show ?case
  proof (cases "Driver sch item")
    case (Inl e)
    then show ?thesis
      using Cons.prems
        Cons.IH [of drivers "emit [Log WARNING ''Error processing driver {item.get(driver_number, unknown)}: {e}''
                     [AVal (dict_get item ''driver_number'' (PStr ''unknown'')), AStr (exc_str e)]] w"]
      by (simp add: driver_dumps_def)
  next
    case (Inr d)
    then show ?thesis
      using Cons.prems Cons.IH [of "drivers @ [d]" w] by (simp add: driver_dumps_def)
  qed
qed

lemma ingest_drivers_count:
  assumes "status response = 200"
  shows "\<exists>w2. db_state w2 = db_state w
     \<and> fst (ingest_drivers sch db response w)
         = fst (bulk_insert db ''drivers'' (driver_dumps sch (body response)) None w2)
     \<and> db_state (snd (ingest_drivers sch db response w))
         = db_state (snd (bulk_insert db ''drivers'' (driver_dumps sch (body response)) None w2))"
proof -
  let ?w1 = "emit [Log INFO ''  Fetched {len(data)} drivers from API''
                     [AInt (int (length (body response)))]] w"
  obtain drivers w2 where loop: "drivers_loop sch (body response) [] ?w1 = (drivers, w2)"
    by (cases "drivers_loop sch (body response) [] ?w1") auto
  have d: "drivers = driver_dumps sch (body response)" and w2: "db_state w2 = db_state w"
    using drivers_loop_dumps [OF loop] by simp_all
  obtain n w3 where b: "bulk_insert db ''drivers'' drivers None w2 = (Inr n, w3)"
    by (rule bulk_insert_cases)
  have "fst (ingest_drivers sch db response w) = Inr n"
    and "db_state (snd (ingest_drivers sch db response w)) = db_state w3"
    using assms loop b by (simp_all add: ingest_drivers_def Let_def)
  then show ?thesis
    using b d w2 by (intro exI [of _ w2]) simp
qed

subsection \<open>Intervals\<close>

lemma db_state_interval_error [simp]: "db_state (interval_error item intervals w) = db_state w"
  by (simp add: interval_error_def)

lemma db_state_report_progress [simp]: "db_state (report_progress p n w) = db_state w"
  by (simp add: report_progress_def)

lemma intervals_loop_recording:
  "intervals_loop sch (Some recording_storage) n_data data seen intervals p w = (seen', intervals', w') \<Longrightarrow>
   db_state w' = db_state w
       @ map (Pair ''intervals'')
           (fst (chunks BATCH_SIZE intervals (valid_dumps (fromisoformat sch) ''date'' (Interval sch) data)))
   \<and> intervals' = snd (chunks BATCH_SIZE intervals (valid_dumps (fromisoformat sch) ''date'' (Interval sch) data))"
proof (induction data arbitrary: seen intervals p w)
  case Nil
  then show ?case by (simp add: valid_dumps_def)
next
  case (Cons item rest)
  show ?case
  proof (cases "coerce_date (fromisoformat sch) ''date'' item")
    case (Inl e)
    then show ?thesis
      using Cons.prems Cons.IH [of "seen @ [item]" intervals p "interval_error item intervals w"]
      by (simp add: valid_dumps_def dump_of_def)
  next
    case (Inr item')
    note co = Inr
    show ?thesis
    proof (cases "Interval sch item'")
      case (Inl e)
      then show ?thesis
        using co Cons.prems
          Cons.IH [of "seen @ [item']" intervals p "interval_error item' intervals w"]
        by (simp add: valid_dumps_def dump_of_def)
    next
      case (Inr interval)
      show ?thesis
      proof (cases "length (intervals @ [interval]) \<ge> BATCH_SIZE")
        case True
        then show ?thesis
          using co Inr Cons.prems
            bulk_insert_recording [of "intervals @ [interval]" "''intervals''" w]
            Cons.IH [of "seen @ [item']" "[]" "p + BATCH_SIZE"
              "report_progress (p + BATCH_SIZE) n_data
                 \<lparr>db_state = db_state w @ [(''intervals'', intervals @ [interval])],
                  logs = logs w @
                    [Log INFO ''Inserted/Updated {inserted_count} documents in {collection_name}''
                       [AInt (int (length (intervals @ [interval]))), AStr ''intervals'']]\<rparr>"]
          by (simp add: valid_dumps_def dump_of_def)
      next
        case False
        then show ?thesis
          using co Inr Cons.prems Cons.IH [of "seen @ [item']" "intervals @ [interval]" p w]
          by (simp add: valid_dumps_def dump_of_def)
      qed
    qed
  qed
qed

lemma validate_interval_item_dump:
  "validate_interval_item sch item \<longleftrightarrow> dump_of (fromisoformat sch) ''date'' (Interval sch) item \<noteq> None"
  by (simp add: validate_interval_item_def dump_of_def split: sum.splits)

lemma intervals_loop_seen:
  "fst (intervals_loop sch db n_data data seen intervals p w)
     = seen @ map (coerced (fromisoformat sch) ''date'') data"
proof (induction data arbitrary: seen intervals p w)
  case Nil
  then show ?case by simp
next
  case (Cons item rest)
  show ?case
  proof (cases "coerce_date (fromisoformat sch) ''date'' item")
    case (Inl e)
    then show ?thesis
      using Cons.IH by (simp add: coerced_def)
  next
    case (Inr item')
    then show ?thesis
      using Cons.IH
      by (auto simp: coerced_def split: sum.splits prod.splits)
  qed
qed

lemma ingest_intervals_count:
  assumes "status response = 200"
  shows "fst (ingest_intervals sch db response w)
     = Inr (int (length (valid_dumps (fromisoformat sch) ''date'' (Interval sch) (body response))))"
proof -
  let ?w0 = "emit [Log INFO '' Fetched {len(data)} intervals from API''
                          [AInt (int (length (body response)))]] w"
  obtain data intervals w1 where
    loop: "intervals_loop sch db (length (body response)) (body response) [] [] 0 ?w0
             = (data, intervals, w1)"
    by (cases "intervals_loop sch db (length (body response)) (body response) [] [] 0 ?w0") auto
  have data: "data = map (coerced (fromisoformat sch) ''date'') (body response)"
    using intervals_loop_seen [of sch db "length (body response)" "body response" "[]" "[]" 0 ?w0] loop
    by simp
  obtain n w2 where f1: "flush db ''intervals'' intervals w1 = (Inr n, w2)"
    by (rule flush_cases)
  obtain m w3 where f2: "flush db ''intervals'' intervals w2 = (Inr m, w3)"
    by (rule flush_cases)
  have "filter (validate_interval_item sch) data
      = filter (\<lambda>item. dump_of (fromisoformat sch) ''date'' (Interval sch) item \<noteq> None) data"
    by (rule filter_cong) (simp_all add: validate_interval_item_dump)
  then have "length (filter (validate_interval_item sch) data)
      = length (valid_dumps (fromisoformat sch) ''date'' (Interval sch) (body response))"
    unfolding data by (simp only: count_coerced)
  then show ?thesis
    using assms loop f1 f2 by (simp add: ingest_intervals_def Let_def)
qed

lemma ingest_intervals_recording:
  assumes "status response = 200"
    and "chunks BATCH_SIZE [] (valid_dumps (fromisoformat sch) ''date'' (Interval sch) (body response))
           = (cs, r)"
  shows "db_state (snd (ingest_intervals sch (Some recording_storage) response w))
     = db_state w @ map (Pair ''intervals'') cs
         @ (if r = [] then [] else [(''intervals'', r), (''intervals'', r)])"
proof -
  let ?w0 = "emit [Log INFO '' Fetched {len(data)} intervals from API''
                          [AInt (int (length (body response)))]] w"
  obtain data intervals w1 where
    loop: "intervals_loop sch (Some recording_storage) (length (body response)) (body response)
             [] [] 0 ?w0 = (data, intervals, w1)"
    by (cases "intervals_loop sch (Some recording_storage) (length (body response)) (body response)
             [] [] 0 ?w0") auto
  have w1: "db_state w1 = db_state w @ map (Pair ''intervals'') cs" and iv: "intervals = r"
    using intervals_loop_recording [OF loop] assms(2) by simp_all
  show ?thesis
    using assms(1) loop w1 iv
    by (simp add: ingest_intervals_def flush_def bulk_insert_recording Let_def)
qed

subsection \<open>Car telemetry, counts and requests\<close>

lemma db_state_car_data_error [simp]: "db_state (car_data_error item e n w) = db_state w"
  by (simp add: car_data_error_def)

lemma car_data_loop_count:
  "fst (snd (car_data_loop sch db data recs sc w))
     = sc + int (length (valid_dumps (fromisoformat sch) ''date'' (CarData sch) data))"
proof (induction data arbitrary: recs sc w)
  case Nil
  then show ?case by (simp add: valid_dumps_def)
next
  case (Cons item rest)
  show ?case
  proof (cases "coerce_date (fromisoformat sch) ''date'' item")
    case (Inl e)
    then show ?thesis
      using Cons.IH by (simp add: valid_dumps_def dump_of_def)
  next
    case (Inr item')
    then show ?thesis
      using Cons.IH
      by (auto simp: valid_dumps_def dump_of_def split: sum.splits prod.splits)
  qed
qed

lemma car_data_loop_recording:
  "car_data_loop sch (Some recording_storage) data recs sc w = (recs', sc', w') \<Longrightarrow>
   db_state w' = db_state w
       @ map (Pair ''car_data'')
           (fst (chunks BATCH_SIZE recs (valid_dumps (fromisoformat sch) ''date'' (CarData sch) data)))
   \<and> recs' = snd (chunks BATCH_SIZE recs (valid_dumps (fromisoformat sch) ''date'' (CarData sch) data))"
proof (induction data arbitrary: recs sc w)
  case Nil
  then show ?case by (simp add: valid_dumps_def)
next
  case (Cons item rest)
  show ?case
  proof (cases "coerce_date (fromisoformat sch) ''date'' item")
    case (Inl e)
    then show ?thesis
      using Cons.prems Cons.IH [of recs sc "car_data_error item e sc w"]
      by (simp add: valid_dumps_def dump_of_def)
  next
    case (Inr item')
    note co = Inr
    show ?thesis
    proof (cases "CarData sch item'")
      case (Inl e)
      then show ?thesis
        using co Cons.prems Cons.IH [of recs sc "car_data_error item' e sc w"]
        by (simp add: valid_dumps_def dump_of_def)
    next
      case (Inr car_data)
      show ?thesis
      proof (cases "length (recs @ [car_data]) \<ge> BATCH_SIZE")
        case True
        then show ?thesis
          using co Inr Cons.prems bulk_insert_recording [of "recs @ [car_data]" "''car_data''" w]
            Cons.IH [of "[]" "sc + 1"
                 "\<lparr>db_state = db_state w @ [(''car_data'', recs @ [car_data])],
                  logs = logs w @
                    [Log INFO ''Inserted/Updated {inserted_count} documents in {collection_name}''
                       [AInt (int (length (recs @ [car_data]))), AStr ''car_data'']]\<rparr>"]
          by (simp add: valid_dumps_def dump_of_def)
      next
        case False
        then show ?thesis
          using co Inr Cons.prems Cons.IH [of "recs @ [car_data]" "sc + 1" w]
          by (simp add: valid_dumps_def dump_of_def)
      qed
    qed
  qed
qed

lemma process_car_data_batch_count:
  "\<exists>w'. process_car_data_batch sch db data w
     = (Inr (int (length (valid_dumps (fromisoformat sch) ''date'' (CarData sch) data))), w')"
proof -
  obtain recs sc w1 where loop: "car_data_loop sch db data [] 0 w = (recs, sc, w1)"
    by (cases "car_data_loop sch db data [] 0 w") auto
  have sc: "sc = int (length (valid_dumps (fromisoformat sch) ''date'' (CarData sch) data))"
    using car_data_loop_count [of sch db data "[]" 0 w] loop by simp
  obtain n w2 where f1: "flush db ''car_data'' recs w1 = (Inr n, w2)"
    by (rule flush_cases)
  show ?thesis
    using loop sc f1 by (simp add: process_car_data_batch_def)
qed

lemma process_car_data_batch_recording:
  assumes "chunks BATCH_SIZE [] (valid_dumps (fromisoformat sch) ''date'' (CarData sch) data) = (cs, r)"
  shows "db_state (snd (process_car_data_batch sch (Some recording_storage) data w))
     = db_state w @ map (Pair ''car_data'') cs @ (if r = [] then [] else [(''car_data'', r)])"
proof -
  obtain recs sc w1 where
    loop: "car_data_loop sch (Some recording_storage) data [] 0 w = (recs, sc, w1)"
    by (cases "car_data_loop sch (Some recording_storage) data [] 0 w") auto
  have w1: "db_state w1 = db_state w @ map (Pair ''car_data'') cs" and rs: "recs = r"
    using car_data_loop_recording [OF loop] assms by simp_all
  show ?thesis
    using loop w1 rs
    by (simp add: process_car_data_batch_def flush_def bulk_insert_recording)
qed




subsection \<open>The speed ranges\<close>













subsection \<open>What each ingester writes and counts\<close>

lemma written_append [simp]: "written (xs @ ys) = written xs @ written ys"
  by (simp add: written_def)

lemma written_chunks [simp]: "written (map (Pair c) cs) = concat cs"
  by (simp add: written_def o_def)

lemma written_single [simp]: "written [(c, r)] = r"
  by (simp add: written_def)

lemma written_Nil [simp]: "written [] = []"
  by (simp add: written_def)

lemma written_twice [simp]: "written [(c, r), (c, r)] = r @ r"
  by (simp add: written_def)

lemma chunks_split:
  "chunks n [] xs = (cs, r) \<Longrightarrow> concat cs @ r = xs"
  using chunks_total [of n "[]" xs] by simp

lemma ingest_laps_written:
  assumes "status response = 200"
  shows "set (written (db_state (snd (ingest_laps sch (Some recording_storage) response w))))
     = set (written (db_state w))
         \<union> set (valid_dumps (fromisoformat sch) ''date_start'' (Lap sch) (body response))"
proof -
  let ?v = "valid_dumps (fromisoformat sch) ''date_start'' (Lap sch) (body response)"
  obtain cs r where ch: "chunks BATCH_SIZE [] ?v = (cs, r)"
    by (cases "chunks BATCH_SIZE [] ?v") auto
  have v: "set ?v = set (concat cs) \<union> set r"
    using chunks_split [OF ch] by (metis set_append)
  show ?thesis
    unfolding ingest_laps_recording [OF assms ch] v by auto
qed

lemma ingest_intervals_written:
  assumes "status response = 200"
  shows "set (written (db_state (snd (ingest_intervals sch (Some recording_storage) response w))))
     = set (written (db_state w))
         \<union> set (valid_dumps (fromisoformat sch) ''date'' (Interval sch) (body response))"
proof -
  let ?v = "valid_dumps (fromisoformat sch) ''date'' (Interval sch) (body response)"
  obtain cs r where ch: "chunks BATCH_SIZE [] ?v = (cs, r)"
    by (cases "chunks BATCH_SIZE [] ?v") auto
  have v: "set ?v = set (concat cs) \<union> set r"
    using chunks_split [OF ch] by (metis set_append)
  show ?thesis
    unfolding ingest_intervals_recording [OF assms ch] v by auto
qed

lemma ingest_positions_written:
  assumes "status response = 200"
  shows "written (db_state (snd (ingest_positions sch (Some recording_storage) response w)))
     = written (db_state w) @ valid_dumps (fromisoformat sch) ''date'' (Position sch) (body response)"
proof -
  let ?v = "valid_dumps (fromisoformat sch) ''date'' (Position sch) (body response)"
  obtain cs r where ch: "chunks BATCH_SIZE [] ?v = (cs, r)"
    by (cases "chunks BATCH_SIZE [] ?v") auto
  show ?thesis
    unfolding ingest_positions_recording [OF assms ch] using chunks_split [OF ch] by auto
qed

lemma process_car_data_batch_written:
  "written (db_state (snd (process_car_data_batch sch (Some recording_storage) data w)))
     = written (db_state w) @ valid_dumps (fromisoformat sch) ''date'' (CarData sch) data"
proof -
  let ?v = "valid_dumps (fromisoformat sch) ''date'' (CarData sch) data"
  obtain cs r where ch: "chunks BATCH_SIZE [] ?v = (cs, r)"
    by (cases "chunks BATCH_SIZE [] ?v") auto
  show ?thesis
    unfolding process_car_data_batch_recording [OF ch] using chunks_split [OF ch] by auto
qed

lemma ingest_drivers_written:
  assumes "status response = 200"
  shows "written (db_state (snd (ingest_drivers sch (Some recording_storage) response w)))
     = written (db_state w) @ driver_dumps sch (body response)"
proof -
  obtain w2 where w2: "db_state w2 = db_state w"
    and d: "db_state (snd (ingest_drivers sch (Some recording_storage) response w))
         = db_state (snd (bulk_insert (Some recording_storage) ''drivers''
              (driver_dumps sch (body response)) None w2))"
    using ingest_drivers_count [OF assms, of w sch "Some recording_storage"] by blast
  show ?thesis
    unfolding d using w2
    by (cases "driver_dumps sch (body response) = []")
       (simp_all add: bulk_insert_empty bulk_insert_recording)
qed


text \<open>
  Claim C9, amended. A record that fails validation is in no batch written: against a
  storage that records its requests, every ingester writes the dumps of the records that
  passed validation and nothing else. The laps, intervals and car-telemetry ingesters
  return the number of fetched records that passed validation, on every storage. The
  drivers ingester returns what the batch writer reports for the validated drivers.
\<close>

theorem validated_records_only:
  assumes "status response = 200"
  shows "fst (ingest_laps sch db response w)
       = Inr (int (length (valid_dumps (fromisoformat sch) ''date_start'' (Lap sch) (body response))))
   \<and> fst (ingest_intervals sch db response w)
       = Inr (int (length (valid_dumps (fromisoformat sch) ''date'' (Interval sch) (body response))))
   \<and> fst (process_car_data_batch sch db (body response) w)
       = Inr (int (length (valid_dumps (fromisoformat sch) ''date'' (CarData sch) (body response))))
   \<and> (\<exists>w2. db_state w2 = db_state w
         \<and> fst (ingest_drivers sch db response w)
             = fst (bulk_insert db ''drivers'' (driver_dumps sch (body response)) None w2))
   \<and> set (written (db_state (snd (ingest_laps sch (Some recording_storage) response rw))))
       = set (written (db_state rw))
           \<union> set (valid_dumps (fromisoformat sch) ''date_start'' (Lap sch) (body response))
   \<and> set (written (db_state (snd (ingest_intervals sch (Some recording_storage) response rw))))
       = set (written (db_state rw))
           \<union> set (valid_dumps (fromisoformat sch) ''date'' (Interval sch) (body response))
   \<and> written (db_state (snd (ingest_positions sch (Some recording_storage) response rw)))
       = written (db_state rw)
           @ valid_dumps (fromisoformat sch) ''date'' (Position sch) (body response)
   \<and> written (db_state (snd (process_car_data_batch sch (Some recording_storage) (body response) rw)))
       = written (db_state rw)
           @ valid_dumps (fromisoformat sch) ''date'' (CarData sch) (body response)
   \<and> written (db_state (snd (ingest_drivers sch (Some recording_storage) response rw)))
       = written (db_state rw) @ driver_dumps sch (body response)"
proof (intro conjI)
  show "fst (process_car_data_batch sch db (body response) w)
       = Inr (int (length (valid_dumps (fromisoformat sch) ''date'' (CarData sch) (body response))))"
    using process_car_data_batch_count [of sch db "body response" w] by auto
  show "\<exists>w2. db_state w2 = db_state w
         \<and> fst (ingest_drivers sch db response w)
             = fst (bulk_insert db ''drivers'' (driver_dumps sch (body response)) None w2)"
    using ingest_drivers_count [OF assms, of w sch db] by blast
qed (simp_all only: ingest_laps_count [OF assms] ingest_intervals_count [OF assms]
      ingest_laps_written [OF assms] ingest_intervals_written [OF assms]
      ingest_positions_written [OF assms] process_car_data_batch_written
      ingest_drivers_written [OF assms])

lemma sample_dumps:
  "valid_dumps (fromisoformat sample_schema) ''date_start'' (Lap sample_schema) [sample_lap, []]
     = [sample_lap]"
  by (simp add: valid_dumps_def dump_of_def coerce_date_def sample_schema_def sample_lap_def
      base_model_def validate_field_def lap_fields_def int_or_none_def validation_error_def)

theorem validated_records_only_witness:
  "status \<lparr>status = 200, body = [sample_lap, []]\<rparr> = 200
   \<and> fst (ingest_laps sample_schema (Some down_storage)
          \<lparr>status = 200, body = [sample_lap, []]\<rparr> \<lparr>db_state = (), logs = []\<rparr>) = Inr 1
   \<and> set (written (db_state (snd (ingest_laps sample_schema (Some recording_storage)
          \<lparr>status = 200, body = [sample_lap, []]\<rparr> \<lparr>db_state = [], logs = []\<rparr>))))
       = {sample_lap}"
  using validated_records_only [where response = "\<lparr>status = 200, body = [sample_lap, []]\<rparr>"
      and sch = sample_schema and db = "Some down_storage" and w = "\<lparr>db_state = (), logs = []\<rparr>"
      and rw = "\<lparr>db_state = [], logs = []\<rparr>"] sample_dumps
  by simp

text \<open>
  Claim C9 as stated fails. With the storage unreachable, the drivers ingester returns
  \<open>0\<close> for one driver that passed validation: it returns the count of the batch writer.
  The positions ingester returns \<open>1\<close> for one record that failed validation: it returns
  \<open>len(data)\<close>.
\<close>

theorem validated_count_counterexample:
  "fst (ingest_drivers sample_schema (Some down_storage)
          \<lparr>status = 200, body = [sample_driver]\<rparr> \<lparr>db_state = (), logs = []\<rparr>) = Inr 0
   \<and> driver_dumps sample_schema [sample_driver] = [sample_driver]
   \<and> fst (ingest_positions sample_schema (Some recording_storage)
          \<lparr>status = 200, body = [[]]\<rparr> \<lparr>db_state = [], logs = []\<rparr>) = Inr 1
   \<and> valid_dumps (fromisoformat sample_schema) ''date'' (Position sample_schema) [[]] = []"
  by (simp add: ingest_drivers_def ingest_positions_def driver_dumps_def valid_dumps_def
      dump_of_def coerce_date_def sample_schema_def sample_driver_def base_model_def
      validate_field_def driver_fields_def position_fields_def validation_error_def
      bulk_insert_def bulk_insert_try_def key_given_def down_storage_def on_bulk_error_def
      unreachable_def emit_def position_error_def flush_def)

subsection \<open>The session selected\<close>

lemma max_loop_latest:
  assumes "\<forall>x \<in> set rest. \<exists>s. map_of x ''date_start'' = Some (PStr s)"
    and "map_of max_item ''date_start'' = Some (PStr m)"
  shows "\<exists>r t. max_loop (\<lambda>x. subscript x ''date_start'') rest max_item (PStr m) = Inr r
     \<and> r \<in> set (max_item # rest) \<and> map_of r ''date_start'' = Some (PStr t) \<and> m \<le> t
     \<and> (\<forall>x \<in> set rest. \<forall>s. map_of x ''date_start'' = Some (PStr s) \<longrightarrow> s \<le> t)"
  using assms
proof (induction rest arbitrary: max_item m)
  case Nil
  then show ?case by simp
next
  case (Cons item rest)
  obtain s where s: "map_of item ''date_start'' = Some (PStr s)"
    using Cons.prems(1) by auto
  have rest: "\<forall>x \<in> set rest. \<exists>s. map_of x ''date_start'' = Some (PStr s)"
    using Cons.prems(1) by simp
  show ?case
  proof (cases "s > m")
    case True
    obtain r t where "max_loop (\<lambda>x. subscript x ''date_start'') rest item (PStr s) = Inr r"
      and "r \<in> set (item # rest)" and "map_of r ''date_start'' = Some (PStr t)" and "s \<le> t"
      and "\<forall>x \<in> set rest. \<forall>s. map_of x ''date_start'' = Some (PStr s) \<longrightarrow> s \<le> t"
      using Cons.IH [OF rest s] by blast
    then show ?thesis
      using True s by (auto simp: subscript_def)
  next
    case False
    obtain r t where "max_loop (\<lambda>x. subscript x ''date_start'') rest max_item (PStr m) = Inr r"
      and "r \<in> set (max_item # rest)" and "map_of r ''date_start'' = Some (PStr t)" and "m \<le> t"
      and "\<forall>x \<in> set rest. \<forall>s. map_of x ''date_start'' = Some (PStr s) \<longrightarrow> s \<le> t"
      using Cons.IH [OF rest Cons.prems(2)] by blast
    then show ?thesis
      using False s by (auto simp: subscript_def)
  qed
qed

lemma py_max_latest:
  assumes "sessions \<noteq> []"
    and "\<forall>x \<in> set sessions. \<exists>s. map_of x ''date_start'' = Some (PStr s)"
  shows "\<exists>r t. py_max (\<lambda>x. subscript x ''date_start'') sessions = Inr r
     \<and> r \<in> set sessions \<and> map_of r ''date_start'' = Some (PStr t)
     \<and> (\<forall>x \<in> set sessions. \<forall>s. map_of x ''date_start'' = Some (PStr s) \<longrightarrow> s \<le> t)"
proof -
  obtain x rest where xs: "sessions = x # rest"
    using assms(1) by (cases sessions) auto
  obtain m where m: "map_of x ''date_start'' = Some (PStr m)"
    using assms(2) xs by auto
  have rest: "\<forall>x \<in> set rest. \<exists>s. map_of x ''date_start'' = Some (PStr s)"
    using assms(2) xs by simp
  obtain r t where "max_loop (\<lambda>x. subscript x ''date_start'') rest x (PStr m) = Inr r"
    and "r \<in> set (x # rest)" and "map_of r ''date_start'' = Some (PStr t)" and "m \<le> t"
    and "\<forall>x \<in> set rest. \<forall>s. map_of x ''date_start'' = Some (PStr s) \<longrightarrow> s \<le> t"
    using max_loop_latest [OF rest m] by blast
  then show ?thesis
    using xs m by (auto simp: py_max_def subscript_def)
qed

lemma fetch_latest_session_ok:
  assumes "status response = 200" and "body response \<noteq> []"
    and "\<forall>x \<in> set (body response). \<exists>s. map_of x ''date_start'' = Some (PStr s)"
    and "\<forall>x \<in> set (body response).
           map_of x ''session_name'' \<noteq> None \<and> map_of x ''location'' \<noteq> None"
  shows "\<exists>latest t.
       fetch_latest_session response w =
         (Inr latest,
          emit [Log INFO ''Found latest race: {latest_session[session_name]} - {latest_session[location]}''
                  [AVal (the (map_of latest ''session_name'')), AVal (the (map_of latest ''location''))]] w)
     \<and> latest \<in> set (body response) \<and> map_of latest ''date_start'' = Some (PStr t)
     \<and> (\<forall>x \<in> set (body response). \<forall>s. map_of x ''date_start'' = Some (PStr s) \<longrightarrow> s \<le> t)"
proof -
  obtain r t where mx: "py_max (\<lambda>x. subscript x ''date_start'') (body response) = Inr r"
    and r: "r \<in> set (body response)" and t: "map_of r ''date_start'' = Some (PStr t)"
    and le: "\<forall>x \<in> set (body response). \<forall>s. map_of x ''date_start'' = Some (PStr s) \<longrightarrow> s \<le> t"
    using py_max_latest [OF assms(2,3)] by blast
  obtain n l where "map_of r ''session_name'' = Some n" and "map_of r ''location'' = Some l"
    using assms(4) r by auto
  then have "fetch_latest_session response w =
         (Inr r,
          emit [Log INFO ''Found latest race: {latest_session[session_name]} - {latest_session[location]}''
                  [AVal (the (map_of r ''session_name'')), AVal (the (map_of r ''location''))]] w)"
    using assms(1,2) mx by (simp add: fetch_latest_session_def subscript_def)
  then show ?thesis
    using r t le by blast
qed

lemma fetch_latest_session_fails:
  assumes "status response \<noteq> 200 \<or> body response = []"
  shows "fetch_latest_session response w = (Inl could_not_fetch, w)"
  using assms by (auto simp: fetch_latest_session_def)

lemma run_aborts:
  assumes "status response \<noteq> 200 \<or> body response = []"
  shows "run_test_ingestion sch db aenter aexit response ingest_session_data w =
     (Inl could_not_fetch,
      aexit (emit [Log ERROR ''Test ingestion failed: {e}'' [AStr ''Could not fetch latest session'']]
               (aenter (emit [Log INFO ''Starting test data ingestion...'' []] w))))"
  using assms
  by (simp add: run_test_ingestion_def run_try_def fetch_latest_session_fails could_not_fetch_def)

lemma run_proceeds:
  assumes "fetch_latest_session response
              (aenter (emit [Log INFO ''Starting test data ingestion...'' []] w))
             = (Inr latest, w1)"
    and "map_of latest ''session_key'' = Some session_key"
    and "Session sch latest = Inr session"
  shows "\<exists>n w2. bulk_insert db ''sessions'' [session] (Some ''session_key'') w1 = (Inr n, w2)
     \<and> fst (run_test_ingestion sch db aenter aexit response ingest_session_data w)
         = (case fst (ingest_session_data session_key w2) of Inl e \<Rightarrow> Inl e | Inr u \<Rightarrow> Inr ())"
proof -
  obtain n w2 where b: "bulk_insert db ''sessions'' [session] (Some ''session_key'') w1 = (Inr n, w2)"
    by (rule bulk_insert_cases)
  have "fst (run_test_ingestion sch db aenter aexit response ingest_session_data w)
         = (case fst (ingest_session_data session_key w2) of Inl e \<Rightarrow> Inl e | Inr u \<Rightarrow> Inr ())"
    using assms b
    by (cases "ingest_session_data session_key w2")
       (auto simp: run_test_ingestion_def run_try_def subscript_def split: sum.splits)
  then show ?thesis
    using b by blast
qed


text \<open>
  Claim C5. When the discovery request answers 200 with a non-empty list of sessions that
  carry a \<open>date_start\<close> string, a name and a location, the session returned is one of them
  and no candidate has a later \<open>date_start\<close>; the run goes on with it: its record is
  upserted and the rest of the run receives its session key. When the request does not
  answer 200 or answers an empty list, \<open>fetch_latest_session\<close> raises, and the run logs the
  failure and raises it again: between entering and leaving the context nothing is written and
  the rest of the run is not reached.
\<close>

theorem session_discovery:
  "(status response = 200 \<and> body response \<noteq> []
      \<and> (\<forall>x \<in> set (body response). \<exists>s. map_of x ''date_start'' = Some (PStr s))
      \<and> (\<forall>x \<in> set (body response).
            map_of x ''session_name'' \<noteq> None \<and> map_of x ''location'' \<noteq> None)
    \<longrightarrow>
      (\<exists>latest t w1.
          fetch_latest_session response
            (aenter (emit [Log INFO ''Starting test data ingestion...'' []] w))
            = (Inr latest, w1)
        \<and> db_state w1 = db_state (aenter (emit [Log INFO ''Starting test data ingestion...'' []] w))
        \<and> latest \<in> set (body response) \<and> map_of latest ''date_start'' = Some (PStr t)
        \<and> (\<forall>x \<in> set (body response). \<forall>s. map_of x ''date_start'' = Some (PStr s) \<longrightarrow> s \<le> t)
        \<and> (\<forall>session_key session.
              map_of latest ''session_key'' = Some session_key \<and> Session sch latest = Inr session
              \<longrightarrow> (\<exists>n w2.
                     bulk_insert db ''sessions'' [session] (Some ''session_key'') w1 = (Inr n, w2)
                   \<and> fst (run_test_ingestion sch db aenter aexit response ingest_session_data w)
                       = (case fst (ingest_session_data session_key w2) of
                            Inl e \<Rightarrow> Inl e | Inr u \<Rightarrow> Inr ())))))
   \<and> (status response \<noteq> 200 \<or> body response = []
    \<longrightarrow>
      fetch_latest_session response w = (Inl could_not_fetch, w)
      \<and> run_test_ingestion sch db aenter aexit response ingest_session_data w =
          (Inl could_not_fetch,
           aexit (emit [Log ERROR ''Test ingestion failed: {e}''
                          [AStr ''Could not fetch latest session'']]
                    (aenter (emit [Log INFO ''Starting test data ingestion...'' []] w)))))"
proof (intro conjI impI)
  let ?w0 = "aenter (emit [Log INFO ''Starting test data ingestion...'' []] w)"
  assume a: "status response = 200 \<and> body response \<noteq> []
      \<and> (\<forall>x \<in> set (body response). \<exists>s. map_of x ''date_start'' = Some (PStr s))
      \<and> (\<forall>x \<in> set (body response).
            map_of x ''session_name'' \<noteq> None \<and> map_of x ''location'' \<noteq> None)"
  have a1: "status response = 200" and a2: "body response \<noteq> []"
    and a3: "\<forall>x \<in> set (body response). \<exists>s. map_of x ''date_start'' = Some (PStr s)"
    and a4: "\<forall>x \<in> set (body response).
            map_of x ''session_name'' \<noteq> None \<and> map_of x ''location'' \<noteq> None"
    using a by blast+
  obtain latest t where
    f0: "fetch_latest_session response ?w0 =
         (Inr latest,
          emit [Log INFO ''Found latest race: {latest_session[session_name]} - {latest_session[location]}''
                  [AVal (the (map_of latest ''session_name'')), AVal (the (map_of latest ''location''))]] ?w0)"
    and l1: "latest \<in> set (body response)"
    and l2: "map_of latest ''date_start'' = Some (PStr t)"
    and l3: "\<forall>x \<in> set (body response). \<forall>s. map_of x ''date_start'' = Some (PStr s) \<longrightarrow> s \<le> t"
    using fetch_latest_session_ok [OF a1 a2 a3 a4, of ?w0] by blast
  define w1 where "w1 =
     emit [Log INFO ''Found latest race: {latest_session[session_name]} - {latest_session[location]}''
             [AVal (the (map_of latest ''session_name'')), AVal (the (map_of latest ''location''))]] ?w0"
  have f: "fetch_latest_session response ?w0 = (Inr latest, w1)"
    using f0 by (simp only: w1_def)
  have w1: "db_state w1 = db_state ?w0"
    by (simp add: w1_def)
  have step: "\<forall>session_key session.
              map_of latest ''session_key'' = Some session_key \<and> Session sch latest = Inr session
              \<longrightarrow> (\<exists>n w2.
                     bulk_insert db ''sessions'' [session] (Some ''session_key'') w1 = (Inr n, w2)
                   \<and> fst (run_test_ingestion sch db aenter aexit response ingest_session_data w)
                       = (case fst (ingest_session_data session_key w2) of
                            Inl e \<Rightarrow> Inl e | Inr u \<Rightarrow> Inr ()))"
  proof (intro allI impI)
    fix session_key session
    assume h: "map_of latest ''session_key'' = Some session_key \<and> Session sch latest = Inr session"
    show "\<exists>n w2.
             bulk_insert db ''sessions'' [session] (Some ''session_key'') w1 = (Inr n, w2)
           \<and> fst (run_test_ingestion sch db aenter aexit response ingest_session_data w)
               = (case fst (ingest_session_data session_key w2) of
                    Inl e \<Rightarrow> Inl e | Inr u \<Rightarrow> Inr ())"
      using run_proceeds [where aenter = aenter and w = w, OF f conjunct1 [OF h] conjunct2 [OF h]] .
  qed
  show "\<exists>latest t w1.
          fetch_latest_session response ?w0 = (Inr latest, w1)
        \<and> db_state w1 = db_state ?w0
        \<and> latest \<in> set (body response) \<and> map_of latest ''date_start'' = Some (PStr t)
        \<and> (\<forall>x \<in> set (body response). \<forall>s. map_of x ''date_start'' = Some (PStr s) \<longrightarrow> s \<le> t)
        \<and> (\<forall>session_key session.
              map_of latest ''session_key'' = Some session_key \<and> Session sch latest = Inr session
              \<longrightarrow> (\<exists>n w2.
                     bulk_insert db ''sessions'' [session] (Some ''session_key'') w1 = (Inr n, w2)
                   \<and> fst (run_test_ingestion sch db aenter aexit response ingest_session_data w)
                       = (case fst (ingest_session_data session_key w2) of
                            Inl e \<Rightarrow> Inl e | Inr u \<Rightarrow> Inr ())))"
    by (rule exI [of _ latest], rule exI [of _ t], rule exI [of _ w1])
       (intro conjI f w1 l1 l2 l3 step)
next
  assume "status response \<noteq> 200 \<or> body response = []"
  then show "fetch_latest_session response w = (Inl could_not_fetch, w)"
    by (rule fetch_latest_session_fails)
next
  assume "status response \<noteq> 200 \<or> body response = []"
  then show "run_test_ingestion sch db aenter aexit response ingest_session_data w =
          (Inl could_not_fetch,
           aexit (emit [Log ERROR ''Test ingestion failed: {e}''
                          [AStr ''Could not fetch latest session'']]
                    (aenter (emit [Log INFO ''Starting test data ingestion...'' []] w))))"
    by (rule run_aborts)
qed


lemma three_sessions:
  "fetch_latest_session
     \<lparr>status = 200,
      body = [sample_session 9158 ''2024-03-02T15:00:00+00:00'',
              sample_session 9662 ''2024-12-08T13:00:00+00:00'',
              sample_session 9590 ''2024-09-01T13:00:00+00:00'']\<rparr> w
   = (Inr (sample_session 9662 ''2024-12-08T13:00:00+00:00''),
      emit [Log INFO ''Found latest race: {latest_session[session_name]} - {latest_session[location]}''
              [AVal (PStr ''Race''), AVal (PStr ''Monza'')]] w)"
  by (simp add: fetch_latest_session_def py_max_def subscript_def sample_session_def)

theorem session_discovery_witness:
  "status \<lparr>status = 200,
       body = [sample_session 9158 ''2024-03-02T15:00:00+00:00'',
               sample_session 9662 ''2024-12-08T13:00:00+00:00'',
               sample_session 9590 ''2024-09-01T13:00:00+00:00'']\<rparr> = 200
   \<and> map (\<lambda>x. map_of x ''date_start'')
         [sample_session 9158 ''2024-03-02T15:00:00+00:00'',
          sample_session 9662 ''2024-12-08T13:00:00+00:00'',
          sample_session 9590 ''2024-09-01T13:00:00+00:00'']
       = [Some (PStr ''2024-03-02T15:00:00+00:00''), Some (PStr ''2024-12-08T13:00:00+00:00''),
          Some (PStr ''2024-09-01T13:00:00+00:00'')]
   \<and> map (\<lambda>x. (map_of x ''session_name'', map_of x ''location''))
         [sample_session 9158 ''2024-03-02T15:00:00+00:00'',
          sample_session 9662 ''2024-12-08T13:00:00+00:00'',
          sample_session 9590 ''2024-09-01T13:00:00+00:00'']
       = [(Some (PStr ''Race''), Some (PStr ''Monza'')), (Some (PStr ''Race''), Some (PStr ''Monza'')),
          (Some (PStr ''Race''), Some (PStr ''Monza''))]
   \<and> fst (fetch_latest_session
         \<lparr>status = 200,
          body = [sample_session 9158 ''2024-03-02T15:00:00+00:00'',
                  sample_session 9662 ''2024-12-08T13:00:00+00:00'',
                  sample_session 9590 ''2024-09-01T13:00:00+00:00'']\<rparr>
         \<lparr>db_state = [], logs = []\<rparr>)
       = Inr (sample_session 9662 ''2024-12-08T13:00:00+00:00'')
   \<and> body \<lparr>status = 200, body = []\<rparr> = []
   \<and> run_test_ingestion sample_schema (Some recording_storage) id id
         \<lparr>status = 200, body = []\<rparr>
         (\<lambda>k w. (Inr (), w)) \<lparr>db_state = [], logs = []\<rparr>
       = (Inl could_not_fetch,
          \<lparr>db_state = [],
           logs = [Log INFO ''Starting test data ingestion...'' [],
                   Log ERROR ''Test ingestion failed: {e}'' [AStr ''Could not fetch latest session'']]\<rparr>)"
proof -
  have hyp: "\<forall>x \<in> set [sample_session 9158 ''2024-03-02T15:00:00+00:00'',
               sample_session 9662 ''2024-12-08T13:00:00+00:00'',
               sample_session 9590 ''2024-09-01T13:00:00+00:00''].
         (\<exists>s. map_of x ''date_start'' = Some (PStr s))
         \<and> map_of x ''session_name'' \<noteq> None \<and> map_of x ''location'' \<noteq> None"
    by (simp add: sample_session_def)
  have abort: "run_test_ingestion sample_schema (Some recording_storage) id id
         \<lparr>status = 200, body = []\<rparr>
         (\<lambda>k w. (Inr (), w)) \<lparr>db_state = [], logs = []\<rparr>
       = (Inl could_not_fetch,
          \<lparr>db_state = [],
           logs = [Log INFO ''Starting test data ingestion...'' [],
                   Log ERROR ''Test ingestion failed: {e}'' [AStr ''Could not fetch latest session'']]\<rparr>)"
    using session_discovery [where response = "\<lparr>status = 200, body = []\<rparr>"
        and sch = sample_schema and db = "Some recording_storage" and aenter = id and aexit = id
        and ingest_session_data = "\<lambda>k w. (Inr (), w)" and w = "\<lparr>db_state = [], logs = []\<rparr>"]
    by (simp add: emit_def)
  have pre: "status \<lparr>status = 200,
       body = [sample_session 9158 ''2024-03-02T15:00:00+00:00'',
               sample_session 9662 ''2024-12-08T13:00:00+00:00'',
               sample_session 9590 ''2024-09-01T13:00:00+00:00'']\<rparr> = 200
     \<and> body \<lparr>status = 200,
       body = [sample_session 9158 ''2024-03-02T15:00:00+00:00'',
               sample_session 9662 ''2024-12-08T13:00:00+00:00'',
               sample_session 9590 ''2024-09-01T13:00:00+00:00'']\<rparr> \<noteq> []
     \<and> (\<forall>x \<in> set (body \<lparr>status = 200,
       body = [sample_session 9158 ''2024-03-02T15:00:00+00:00'',
               sample_session 9662 ''2024-12-08T13:00:00+00:00'',
               sample_session 9590 ''2024-09-01T13:00:00+00:00'']\<rparr>).
           \<exists>s. map_of x ''date_start'' = Some (PStr s))
     \<and> (\<forall>x \<in> set (body \<lparr>status = 200,
       body = [sample_session 9158 ''2024-03-02T15:00:00+00:00'',
               sample_session 9662 ''2024-12-08T13:00:00+00:00'',
               sample_session 9590 ''2024-09-01T13:00:00+00:00'']\<rparr>).
           map_of x ''session_name'' \<noteq> None \<and> map_of x ''location'' \<noteq> None)"
    using hyp by simp
  note selected = mp [OF conjunct1 [OF session_discovery
        [where sch = sample_schema and db = "Some recording_storage"
           and aenter = id and aexit = id
           and ingest_session_data = "\<lambda>k w. (Inr (), w)"
           and w = "\<lparr>db_state = [], logs = []\<rparr>"]] pre]
  have fields: "map (\<lambda>x. map_of x ''date_start'')
         [sample_session 9158 ''2024-03-02T15:00:00+00:00'',
          sample_session 9662 ''2024-12-08T13:00:00+00:00'',
          sample_session 9590 ''2024-09-01T13:00:00+00:00'']
       = [Some (PStr ''2024-03-02T15:00:00+00:00''), Some (PStr ''2024-12-08T13:00:00+00:00''),
          Some (PStr ''2024-09-01T13:00:00+00:00'')]"
    "map (\<lambda>x. (map_of x ''session_name'', map_of x ''location''))
         [sample_session 9158 ''2024-03-02T15:00:00+00:00'',
          sample_session 9662 ''2024-12-08T13:00:00+00:00'',
          sample_session 9590 ''2024-09-01T13:00:00+00:00'']
       = [(Some (PStr ''Race''), Some (PStr ''Monza'')), (Some (PStr ''Race''), Some (PStr ''Monza'')),
          (Some (PStr ''Race''), Some (PStr ''Monza''))]"
    by (simp_all add: sample_session_def)
  show ?thesis
    using fields abort selected by (simp add: three_sessions)
qed

subsection \<open>The same run through the other batching loops\<close>

lemma chunks_12001:
  assumes "chunks BATCH_SIZE [] (replicate 12001 x) = (cs, r)"
  shows "map length cs = [5000, 5000] \<and> length r = 2001 \<and> r \<noteq> []"
proof -
  have "map length cs = replicate (12001 div 5000) 5000" and "length r = 12001 mod 5000"
    using chunks_sizes [of BATCH_SIZE "[]" "replicate 12001 x"] assms
    by (simp_all add: BATCH_SIZE_def)
  then show ?thesis
    by (auto simp: numeral_2_eq_2)
qed

lemma sizes_of_requests:
  "map length cs = ls \<Longrightarrow> map ((\<lambda>(c, ds). (c, length ds)) \<circ> Pair c) cs = map (Pair c) ls"
  by (auto simp: o_def)

lemma ingest_positions_12001:
  "map (\<lambda>(c, ds). (c, length ds))
     (db_state (snd (ingest_positions sample_schema (Some recording_storage)
        \<lparr>status = 200, body = replicate 12001 sample_position\<rparr> \<lparr>db_state = [], logs = []\<rparr>)))
   = [(''positions'', 5000), (''positions'', 5000), (''positions'', 2001)]"
proof -
  let ?xs = "replicate 12001 sample_position"
  let ?ds = "replicate 12001 (AList.update ''date'' sample_instant sample_position)"
  obtain cs r where ch: "chunks BATCH_SIZE [] ?ds = (cs, r)"
    by (cases "chunks BATCH_SIZE [] ?ds") auto
  have d: "dump_of (fromisoformat sample_schema) ''date'' (Position sample_schema) sample_position
      = Some (AList.update ''date'' sample_instant sample_position)"
    by (simp add: dump_of_def coerce_date_def replace_Z_def sample_schema_def
        sample_fromisoformat_def sample_instants_def base_model_def validate_field_def
        position_fields_def sample_position_def sample_instant_def)
  have vd: "valid_dumps (fromisoformat sample_schema) ''date'' (Position sample_schema) ?xs = ?ds"
    using d by (rule valid_dumps_replicate)
  have "db_state (snd (ingest_positions sample_schema (Some recording_storage)
        \<lparr>status = 200, body = ?xs\<rparr> \<lparr>db_state = [], logs = []\<rparr>))
     = map (Pair ''positions'') cs @ [(''positions'', r)]"
    using ingest_positions_recording [of "\<lparr>status = 200, body = ?xs\<rparr>" sample_schema cs r
        "\<lparr>db_state = [], logs = []\<rparr>"] ch vd chunks_12001 [OF ch]
    by simp
  then show ?thesis
    using chunks_12001 [OF ch]
      sizes_of_requests [of cs "[5000, 5000]"] by simp
qed

lemma ingest_intervals_12001:
  "map (\<lambda>(c, ds). (c, length ds))
     (db_state (snd (ingest_intervals sample_schema (Some recording_storage)
        \<lparr>status = 200, body = replicate 12001 sample_interval\<rparr> \<lparr>db_state = [], logs = []\<rparr>)))
   = [(''intervals'', 5000), (''intervals'', 5000), (''intervals'', 2001), (''intervals'', 2001)]"
proof -
  let ?xs = "replicate 12001 sample_interval"
  let ?ds = "replicate 12001 (AList.update ''date'' sample_instant sample_interval)"
  obtain cs r where ch: "chunks BATCH_SIZE [] ?ds = (cs, r)"
    by (cases "chunks BATCH_SIZE [] ?ds") auto
  have g1: "validate_gap (PStr ''+1 LAP'') = Inr (PStr ''+1 LAP'')"
    by (simp add: validate_gap_str plus_one_lap)
  have g2: "validate_gap PNone = Inr PNone"
    by (simp add: validate_gap_def parse_gap_values_def gap_field_type_def)
  have d: "dump_of (fromisoformat sample_schema) ''date'' (Interval sample_schema) sample_interval
      = Some (AList.update ''date'' sample_instant sample_interval)"
    by (simp add: dump_of_def coerce_date_def replace_Z_def sample_schema_def
        sample_fromisoformat_def sample_instants_def base_model_def validate_field_def
        interval_fields_def sample_interval_def sample_instant_def g1 g2)
  have vd: "valid_dumps (fromisoformat sample_schema) ''date'' (Interval sample_schema) ?xs = ?ds"
    using d by (rule valid_dumps_replicate)
  have "db_state (snd (ingest_intervals sample_schema (Some recording_storage)
        \<lparr>status = 200, body = ?xs\<rparr> \<lparr>db_state = [], logs = []\<rparr>))
     = map (Pair ''intervals'') cs @ [(''intervals'', r), (''intervals'', r)]"
    using ingest_intervals_recording [of "\<lparr>status = 200, body = ?xs\<rparr>" sample_schema cs r
        "\<lparr>db_state = [], logs = []\<rparr>"] ch vd chunks_12001 [OF ch]
    by simp
  then show ?thesis
    using chunks_12001 [OF ch]
      sizes_of_requests [of cs "[5000, 5000]"] by simp
qed

end
